theory Spec2Isabelle
  imports Main
begin

section \<open>Python values and strings\<close>

text \<open>
  The bot is written in Python. A value that \<^verbatim>\<open>json.loads\<close> returns is one of None, a
  bool, an int, a float, a str, a list or a dict with string keys; the same shapes are
  what the executor stores in its result. A float is kept as a mantissa and a decimal
  exponent (\<open>JFloat m e\<close> is \<open>m * 10 ^ e\<close>); the code never computes with one. A dict is
  an association list read with \<open>map_of\<close>. A \<open>char\<close> stands for one code point below
  256.
\<close>

datatype json =
    JNull
  | JBool bool
  | JInt int
  | JFloat int int
  | JStr string
  | JArr "json list"
  | JObj "(string \<times> json) list"

text \<open>The exceptions the modelled code meets: \<open>AttributeError\<close> and \<open>TypeError\<close> on a value
  of the wrong shape; from \<^verbatim>\<open>json.loads\<close>, \<open>JSONDecodeError\<close> on a text that is not JSON,
  \<open>RecursionError\<close> on a text nested too deeply (\<^verbatim>\<open>'[' * 2000\<close>) and \<open>ValueError\<close> on a
  number with more digits than the interpreter converts; \<open>ValueError\<close> also from the stream
  reader on a line over its limit and from a format code that does not fit the value;
  \<open>RunException\<close> stands for any failure of the subprocess call itself. A handler
  \<^verbatim>\<open>except json.JSONDecodeError\<close> catches the first of these only.\<close>

datatype py_error =
    AttributeError
  | TypeError
  | ValueError
  | RecursionError
  | JSONDecodeError
  | RunException

text \<open>Truth value of a Python object (\<^verbatim>\<open>if x:\<close>, \<^verbatim>\<open>not x\<close>).\<close>

fun truthy :: "json \<Rightarrow> bool" where
  "truthy JNull = False"
| "truthy (JBool b) = b"
| "truthy (JInt i) = (i \<noteq> 0)"
| "truthy (JFloat m e) = (m \<noteq> 0)"
| "truthy (JStr s) = (s \<noteq> [])"
| "truthy (JArr xs) = (xs \<noteq> [])"
| "truthy (JObj kvs) = (kvs \<noteq> [])"

text \<open>\<^verbatim>\<open>x.get(key, default)\<close>: only a dict has the method.\<close>

fun py_get :: "json \<Rightarrow> string \<Rightarrow> json \<Rightarrow> py_error + json" where
  "py_get (JObj kvs) k d = Inr (case map_of kvs k of None \<Rightarrow> d | Some v \<Rightarrow> v)"
| "py_get _ k d = Inl AttributeError"

text \<open>\<^verbatim>\<open>for block in content\<close>: a list yields its elements, a str its characters, a dict
  its keys; anything else is not iterable.\<close>

fun py_iter :: "json \<Rightarrow> py_error + json list" where
  "py_iter (JArr xs) = Inr xs"
| "py_iter (JStr s) = Inr (map (\<lambda>c. JStr [c]) s)"
| "py_iter (JObj kvs) = Inr (map (\<lambda>kv. JStr (fst kv)) kvs)"
| "py_iter _ = Inl TypeError"

text \<open>Equality of hashable values as a Python set sees it: numbers (bool, int, float)
  compare by value, strings by content.\<close>

fun num_val :: "json \<Rightarrow> (int \<times> int) option" where
  "num_val (JBool b) = Some (if b then 1 else 0, 0)"
| "num_val (JInt i) = Some (i, 0)"
| "num_val (JFloat m e) = Some (m, e)"
| "num_val _ = None"

definition num_eq :: "int \<times> int \<Rightarrow> int \<times> int \<Rightarrow> bool" where
  "num_eq a b =
     (let e = min (snd a) (snd b)
      in fst a * 10 ^ nat (snd a - e) = fst b * 10 ^ nat (snd b - e))"

definition py_eq :: "json \<Rightarrow> json \<Rightarrow> bool" where
  "py_eq x y =
     (case (num_val x, num_val y) of
        (Some a, Some b) \<Rightarrow> num_eq a b
      | _ \<Rightarrow> x = y)"

fun hashable :: "json \<Rightarrow> bool" where
  "hashable (JArr xs) = False"
| "hashable (JObj kvs) = False"
| "hashable _ = True"

text \<open>A Python set is kept as the list of its elements in the order they were first
  added. \<^verbatim>\<open>s.add(x)\<close> raises TypeError on a list or a dict.\<close>

definition set_add :: "json list \<Rightarrow> json \<Rightarrow> py_error + json list" where
  "set_add s x =
     (if \<not> hashable x then Inl TypeError
      else if list_ex (py_eq x) s then Inr s
      else Inr (s @ [x]))"

text \<open>\<^verbatim>\<open>str.isspace\<close> on the code points below 256, and \<^verbatim>\<open>str.strip()\<close>.\<close>

definition is_space :: "char \<Rightarrow> bool" where
  "is_space c =
     (let n = of_char c :: nat
      in (9 \<le> n \<and> n \<le> 13) \<or> (28 \<le> n \<and> n \<le> 32) \<or> n = 133 \<or> n = 160)"

definition strip :: "string \<Rightarrow> string" where
  "strip s = rev (dropWhile is_space (rev (dropWhile is_space s)))"

text \<open>\<^verbatim>\<open>s.split(c)\<close> for a one-character separator: never an empty list.\<close>

fun split_on :: "char \<Rightarrow> string \<Rightarrow> string list" where
  "split_on c [] = [[]]"
| "split_on c (x # xs) =
     (if x = c then [] # split_on c xs
      else (case split_on c xs of
              w # ws \<Rightarrow> (x # w) # ws
            | [] \<Rightarrow> [[x]]))"

text \<open>\<^verbatim>\<open>''.join(parts)\<close>: every item must be a str.\<close>

fun join_parts :: "json list \<Rightarrow> py_error + string" where
  "join_parts [] = Inr []"
| "join_parts (JStr s # ps) =
     (case join_parts ps of Inl e \<Rightarrow> Inl e | Inr r \<Rightarrow> Inr (s @ r))"
| "join_parts (_ # ps) = Inl TypeError"

text \<open>\<^verbatim>\<open>key in x\<close> for a str key: a dict looks among its keys, a list among its
  elements, a str for a substring; other values raise TypeError.\<close>

definition starts_with :: "string \<Rightarrow> string \<Rightarrow> bool" where
  "starts_with p s = (take (length p) s = p)"

fun contains_str :: "string \<Rightarrow> string \<Rightarrow> bool" where
  "contains_str p [] = (p = [])"
| "contains_str p (x # xs) = (starts_with p (x # xs) \<or> contains_str p xs)"

definition dict_get :: "(string \<times> json) list \<Rightarrow> string \<Rightarrow> json \<Rightarrow> json" where
  "dict_get kvs k d = (case map_of kvs k of None \<Rightarrow> d | Some v \<Rightarrow> v)"

fun py_contains :: "string \<Rightarrow> json \<Rightarrow> py_error + bool" where
  "py_contains k (JObj kvs) = Inr (map_of kvs k \<noteq> None)"
| "py_contains k (JArr xs) = Inr (List.member xs (JStr k))"
| "py_contains k (JStr s) = Inr (contains_str k s)"
| "py_contains k _ = Inl TypeError"

text \<open>\<^verbatim>\<open>x[key]\<close> for a str key, reached only after \<^verbatim>\<open>key in x\<close> held: a list or a str
  cannot be indexed by a str.\<close>

fun py_getitem :: "json \<Rightarrow> string \<Rightarrow> py_error + json" where
  "py_getitem (JObj kvs) k = Inr (dict_get kvs k JNull)"
| "py_getitem _ k = Inl TypeError"

text \<open>\<^verbatim>\<open>v.split('/')[-1]\<close> and \<^verbatim>\<open>v[:40]\<close>. (Slicing a dict raises TypeError, from
  Python 3.12 on KeyError; no handler of the modelled code tells the two apart.)\<close>

fun last_path_part :: "json \<Rightarrow> py_error + json" where
  "last_path_part (JStr s) = Inr (JStr (last (split_on CHR ''/'' s)))"
| "last_path_part _ = Inl AttributeError"

fun first_40 :: "json \<Rightarrow> py_error + json" where
  "first_40 (JStr s) = Inr (JStr (take 40 s))"
| "first_40 (JArr xs) = Inr (JArr (take 40 xs))"
| "first_40 _ = Inl TypeError"

text \<open>Running a loop body over a list, stopping at the first exception.\<close>

fun for_each :: "('s \<Rightarrow> 'a \<Rightarrow> py_error + 's) \<Rightarrow> 's \<Rightarrow> 'a list \<Rightarrow> py_error + 's" where
  "for_each f st [] = Inr st"
| "for_each f st (x # xs) =
     (case f st x of Inl e \<Rightarrow> Inl e | Inr st' \<Rightarrow> for_each f st' xs)"


section \<open>The executor (claude_executor.py)\<close>

text \<open>
  What the interpreter supplies and the code does not decide. \<open>json_loads\<close> is
  \<^verbatim>\<open>json.loads\<close>: \<open>Inr v\<close> is the value returned, \<open>Inl e\<close> the exception raised.
  \<open>set_rank s x\<close> is the place of the element \<open>x\<close> in the iteration of a set whose
  elements were added in the order \<open>s\<close> (the iteration follows the hashes of the
  elements, which for strings change from one process to the next). \<open>utf8_decode\<close> is
  \<^verbatim>\<open>bytes.decode('utf-8', errors='replace')\<close>, from the bytes of a pipe to a str.
\<close>

record runtime =
  json_loads :: "string \<Rightarrow> py_error + json"
  set_rank :: "json list \<Rightarrow> json \<Rightarrow> nat"
  utf8_decode :: "string \<Rightarrow> string"

text \<open>\<^verbatim>\<open>list(a_set)\<close>: the elements of the set, each once, in the order of their ranks
  (two elements of one rank in the order they were added).\<close>

definition list_of_set :: "runtime \<Rightarrow> json list \<Rightarrow> json list" where
  "list_of_set rt s = sort_key (set_rank rt s) s"

text \<open>The text of \<^verbatim>\<open>ClaudeResponse.error\<close>:
  \<open>CommandTimeout n\<close> is \<^verbatim>\<open>f"Command timeout after {n} seconds"\<close>,
  \<open>ExecutionError e\<close> is \<^verbatim>\<open>f"Execution error: {str(e)}"\<close>, and \<open>Message v\<close> is the value
  \<open>v\<close> itself (the standard error text, an entry of an event's \<^verbatim>\<open>errors\<close>, or
  \<^verbatim>\<open>"Unknown error"\<close>).\<close>

datatype error_msg = CommandTimeout int | ExecutionError py_error | Message json

text \<open>\<^verbatim>\<open>ClaudeResponse\<close>. The field \<open>success\<close> holds the truth value of what the code
  stores there (every reader tests it with \<^verbatim>\<open>if\<close>); \<open>output_text\<close> is the field
  \<^verbatim>\<open>output\<close>.\<close>

record claude_response =
  success :: bool
  output_text :: string
  error :: "error_msg option"
  session_id :: json
  cost_usd :: json
  input_tokens :: json
  output_tokens :: json
  duration_ms :: json
  model :: json
  tools_used :: "json list"
  raw_events :: "json list"

definition ClaudeResponse :: "bool \<Rightarrow> string \<Rightarrow> error_msg option \<Rightarrow> claude_response" where
  "ClaudeResponse s out err =
     \<lparr>success = s, output_text = out, error = err, session_id = JNull,
      cost_usd = JFloat 0 0, input_tokens = JInt 0, output_tokens = JInt 0,
      duration_ms = JInt 0, model = JNull, tools_used = [], raw_events = []\<rparr>"

text \<open>A progress notification of the streaming variant,
  \<^verbatim>\<open>f"<wrench> `{tool_name}`{detail} (step {tool_call_count})"\<close>; \<open>Detail v\<close> is
  \<^verbatim>\<open>f": `{v}`"\<close> and \<open>NoDetail\<close> the empty string.\<close>

datatype detail = NoDetail | Detail json

datatype progress = ToolProgress json detail nat

text \<open>The local variables of the parsing loop. \<open>tool_call_count\<close> and \<open>progress\<close>
  (the calls of \<^verbatim>\<open>on_progress\<close> so far) are used by the streaming variant only.\<close>

record parse_state =
  events :: "json list"
  output_parts :: "json list"
  v_session_id :: json
  v_cost_usd :: json
  v_input_tokens :: json
  v_output_tokens :: json
  v_duration_ms :: json
  v_model :: json
  v_tools_used :: "json list"
  tool_call_count :: nat
  progress :: "progress list"

definition initial_state :: parse_state where
  "initial_state =
     \<lparr>events = [], output_parts = [], v_session_id = JNull, v_cost_usd = JFloat 0 0,
      v_input_tokens = JInt 0, v_output_tokens = JInt 0, v_duration_ms = JInt 0,
      v_model = JNull, v_tools_used = [], tool_call_count = 0, progress = []\<rparr>"

subsection \<open>The events\<close>

definition on_init :: "parse_state \<Rightarrow> (string \<times> json) list \<Rightarrow> parse_state" where
  "on_init st ev =
     st\<lparr>v_session_id := dict_get ev ''session_id'' JNull,
        v_model := dict_get ev ''model'' JNull\<rparr>"

definition on_result :: "parse_state \<Rightarrow> (string \<times> json) list \<Rightarrow> py_error + parse_state" where
  "on_result st ev =
     (let st1 = (if \<not> truthy (v_session_id st)
                 then st\<lparr>v_session_id := dict_get ev ''session_id'' JNull\<rparr> else st);
          st2 = st1\<lparr>v_cost_usd := dict_get ev ''total_cost_usd'' (JFloat 0 0),
                    v_duration_ms := dict_get ev ''duration_ms'' (JInt 0)\<rparr>;
          usage = dict_get ev ''usage'' (JObj [])
      in case py_get usage ''input_tokens'' (JInt 0) of
           Inl e \<Rightarrow> Inl e
         | Inr i \<Rightarrow>
             (case py_get usage ''output_tokens'' (JInt 0) of
                Inl e \<Rightarrow> Inl e
              | Inr out \<Rightarrow> Inr (st2\<lparr>v_input_tokens := i, v_output_tokens := out\<rparr>)))"

text \<open>One content block in \<^verbatim>\<open>_parse_stream_json\<close>.\<close>

fun parse_block :: "parse_state \<Rightarrow> json \<Rightarrow> py_error + parse_state" where
  "parse_block st (JObj b) =
     (let t = dict_get b ''type'' JNull
      in if t = JStr ''text''
         then Inr (st\<lparr>output_parts := output_parts st @ [dict_get b ''text'' (JStr [])]\<rparr>)
         else if t = JStr ''tool_use''
         then (case set_add (v_tools_used st) (dict_get b ''name'' (JStr ''unknown'')) of
                 Inl e \<Rightarrow> Inl e
               | Inr s \<Rightarrow> Inr (st\<lparr>v_tools_used := s\<rparr>))
         else Inr st)"
| "parse_block st _ = Inl AttributeError"

text \<open>The detail of a progress notification.\<close>

definition file_detail :: "json \<Rightarrow> py_error + detail" where
  "file_detail tool_input =
     (case py_getitem tool_input ''file_path'' of
        Inl e \<Rightarrow> Inl e
      | Inr v \<Rightarrow> (case last_path_part v of Inl e \<Rightarrow> Inl e | Inr d \<Rightarrow> Inr (Detail d)))"

definition command_detail :: "json \<Rightarrow> py_error + detail" where
  "command_detail tool_input =
     (case py_getitem tool_input ''command'' of
        Inl e \<Rightarrow> Inl e
      | Inr v \<Rightarrow> (case first_40 v of Inl e \<Rightarrow> Inl e | Inr d \<Rightarrow> Inr (Detail d)))"

definition tool_detail :: "json \<Rightarrow> json \<Rightarrow> py_error + detail" where
  "tool_detail tool_name tool_input =
     (if tool_name \<in> {JStr ''Write'', JStr ''Edit'', JStr ''Create''}
      then (case py_contains ''file_path'' tool_input of
              Inl e \<Rightarrow> Inl e
            | Inr True \<Rightarrow> file_detail tool_input
            | Inr False \<Rightarrow> Inr NoDetail)
      else if tool_name = JStr ''Bash''
      then (case py_contains ''command'' tool_input of
              Inl e \<Rightarrow> Inl e
            | Inr True \<Rightarrow> command_detail tool_input
            | Inr False \<Rightarrow> Inr NoDetail)
      else if tool_name = JStr ''Read''
      then (case py_contains ''file_path'' tool_input of
              Inl e \<Rightarrow> Inl e
            | Inr True \<Rightarrow> file_detail tool_input
            | Inr False \<Rightarrow> Inr NoDetail)
      else Inr NoDetail)"

text \<open>One content block in \<^verbatim>\<open>execute_streaming\<close>; \<open>on_progress\<close> tells whether a
  callback was passed.\<close>

fun stream_block :: "bool \<Rightarrow> parse_state \<Rightarrow> json \<Rightarrow> py_error + parse_state" where
  "stream_block on_progress st (JObj b) =
     (let t = dict_get b ''type'' JNull
      in if t = JStr ''text''
         then Inr (st\<lparr>output_parts := output_parts st @ [dict_get b ''text'' (JStr [])]\<rparr>)
         else if t = JStr ''tool_use''
         then (let tool_name = dict_get b ''name'' (JStr ''unknown'')
               in case set_add (v_tools_used st) tool_name of
                    Inl e \<Rightarrow> Inl e
                  | Inr s \<Rightarrow>
                      (let st1 = st\<lparr>v_tools_used := s,
                                     tool_call_count := tool_call_count st + 1\<rparr>
                       in if on_progress
                          then (case tool_detail tool_name (dict_get b ''input'' (JObj [])) of
                                  Inl e \<Rightarrow> Inl e
                                | Inr d \<Rightarrow>
                                    Inr (st1\<lparr>progress := progress st1 @
                                           [ToolProgress tool_name d (tool_call_count st1)]\<rparr>))
                          else Inr st1))
         else Inr st)"
| "stream_block on_progress st _ = Inl AttributeError"

text \<open>The body of the \<^verbatim>\<open>try\<close> once the line is decoded and the event appended to
  \<open>events\<close>; \<open>block\<close> is the treatment of a content block.\<close>

fun on_event ::
  "(parse_state \<Rightarrow> json \<Rightarrow> py_error + parse_state) \<Rightarrow> parse_state \<Rightarrow> json \<Rightarrow>
   py_error + parse_state" where
  "on_event block st (JObj ev) =
     (let event_type = dict_get ev ''type'' JNull
      in if event_type = JStr ''system'' \<and> dict_get ev ''subtype'' JNull = JStr ''init''
         then Inr (on_init st ev)
         else if event_type = JStr ''assistant''
         then (case py_get (dict_get ev ''message'' (JObj [])) ''content'' (JArr []) of
                 Inl e \<Rightarrow> Inl e
               | Inr content \<Rightarrow>
                   (case py_iter content of
                      Inl e \<Rightarrow> Inl e
                    | Inr blocks \<Rightarrow> for_each block st blocks))
         else if event_type = JStr ''result''
         then on_result st ev
         else Inr st)"
| "on_event block st _ = Inl AttributeError"

text \<open>One line of standard output in \<^verbatim>\<open>_parse_stream_json\<close>: a blank line is passed
  over; a line on which \<^verbatim>\<open>json.loads\<close> raises JSONDecodeError is logged and passed over;
  any other exception of \<^verbatim>\<open>json.loads\<close> leaves the loop, as does one raised while the
  event is treated.\<close>

definition parse_line :: "runtime \<Rightarrow> parse_state \<Rightarrow> string \<Rightarrow> py_error + parse_state" where
  "parse_line rt st line =
     (if strip line = [] then Inr st
      else case json_loads rt line of
             Inl e \<Rightarrow> (if e = JSONDecodeError then Inr st else Inl e)
           | Inr event \<Rightarrow> on_event parse_block (st\<lparr>events := events st @ [event]\<rparr>) event)"

text \<open>The stream reader of \<^verbatim>\<open>asyncio.create_subprocess_exec\<close> is created with the default
  limit of \<^verbatim>\<open>2 ** 16\<close> bytes: \<^verbatim>\<open>async for raw_line in proc.stdout\<close> raises ValueError at a
  line that holds more bytes than that before its newline.\<close>

definition STREAM_LIMIT :: nat where
  "STREAM_LIMIT = 65536"

definition over_limit :: "string \<Rightarrow> bool" where
  "over_limit raw = (STREAM_LIMIT < length (takeWhile (\<lambda>c. c \<noteq> CHR 0x0A) raw))"

text \<open>One line read from the pipe in \<^verbatim>\<open>execute_streaming\<close>; \<open>raw\<close> holds the bytes of the
  line. The exception of the reader is raised outside the \<^verbatim>\<open>try\<close> of the loop body.\<close>

definition stream_line ::
  "runtime \<Rightarrow> bool \<Rightarrow> parse_state \<Rightarrow> string \<Rightarrow> py_error + parse_state" where
  "stream_line rt on_progress st raw =
     (if over_limit raw then Inl ValueError
      else
        (let line = strip (utf8_decode rt raw)
         in if line = [] then Inr st
            else case json_loads rt line of
                   Inl e \<Rightarrow> (if e = JSONDecodeError then Inr st else Inl e)
                 | Inr event \<Rightarrow>
                     on_event (stream_block on_progress) (st\<lparr>events := events st @ [event]\<rparr>)
                       event))"

subsection \<open>\<^verbatim>\<open>_parse_stream_json\<close> and \<^verbatim>\<open>execute\<close>\<close>

text \<open>The search for an error message on a non-zero exit, over the lines in reverse:
  \<open>Inr (Some v)\<close> when an entry \<open>v\<close> of \<^verbatim>\<open>errors\<close> was taken (the \<^verbatim>\<open>break\<close>),
  \<open>Inr None\<close> when the loop ended or a JSONDecodeError, KeyError or IndexError ended the
  search, \<open>Inl e\<close> when another exception leaves the function.\<close>

fun scan_errors :: "runtime \<Rightarrow> string list \<Rightarrow> py_error + json option" where
  "scan_errors rt [] = Inr None"
| "scan_errors rt (line # ls) =
     (if strip line = [] then scan_errors rt ls
      else case json_loads rt line of
             Inl e \<Rightarrow> (if e = JSONDecodeError then Inr None else Inl e)
           | Inr (JObj ev) \<Rightarrow>
               (if dict_get ev ''type'' JNull = JStr ''result'' \<and>
                   dict_get ev ''subtype'' JNull = JStr ''error_during_execution''
                then (let errors = dict_get ev ''errors'' (JArr [])
                      in if truthy errors
                         then (case errors of
                                 JArr (x # xs) \<Rightarrow> Inr (Some x)
                               | JStr (c # cs) \<Rightarrow> Inr (Some (JStr [c]))
                               | JObj kvs \<Rightarrow> Inr None
                               | _ \<Rightarrow> Inl TypeError)
                         else scan_errors rt ls)
                else scan_errors rt ls)
           | Inr _ \<Rightarrow> Inl AttributeError)"

definition NO_TEXT_OUTPUT :: string where
  "NO_TEXT_OUTPUT = ''(Claude completed task with no text output)''"

definition nonzero_exit :: "runtime \<Rightarrow> string \<Rightarrow> string \<Rightarrow> py_error + claude_response" where
  "nonzero_exit rt stdout stderr =
     (let error_msg = (if stderr \<noteq> [] then JStr (strip stderr) else JNull)
      in case (if \<not> truthy error_msg \<and> stdout \<noteq> []
               then scan_errors rt (rev (split_on CHR 0x0A (strip stdout)))
               else Inr None) of
           Inl e \<Rightarrow> Inl e
         | Inr found \<Rightarrow>
             (let error_msg1 = (case found of None \<Rightarrow> error_msg | Some v \<Rightarrow> v);
                  error_msg2 = (if \<not> truthy error_msg1 then JStr ''Unknown error''
                                else error_msg1)
              in Inr (ClaudeResponse False [] (Some (Message error_msg2)))))"

text \<open>What both variants return once the lines are read and the process has exited
  with \<open>returncode\<close> (the last lines of \<^verbatim>\<open>_parse_stream_json\<close>, and of
  \<^verbatim>\<open>execute_streaming\<close> after its check of the exit code).\<close>

definition final_response ::
  "runtime \<Rightarrow> bool \<Rightarrow> string \<Rightarrow> parse_state \<Rightarrow> claude_response" where
  "final_response rt is_success out st =
     \<lparr>success = is_success, output_text = out, error = None,
      session_id = v_session_id st, cost_usd = v_cost_usd st,
      input_tokens = v_input_tokens st, output_tokens = v_output_tokens st,
      duration_ms = v_duration_ms st, model = v_model st,
      tools_used = list_of_set rt (v_tools_used st), raw_events = events st\<rparr>"

definition parse_stream_json ::
  "runtime \<Rightarrow> int \<Rightarrow> string \<Rightarrow> string \<Rightarrow> py_error + claude_response" where
  "parse_stream_json rt returncode stdout stderr =
     (if returncode \<noteq> 0 then nonzero_exit rt stdout stderr
      else case for_each (parse_line rt) initial_state (split_on CHR 0x0A (strip stdout)) of
             Inl e \<Rightarrow> Inl e
           | Inr st \<Rightarrow>
               (case join_parts (output_parts st) of
                  Inl e \<Rightarrow> Inl e
                | Inr joined \<Rightarrow>
                    (let out = strip joined;
                         is_success = (returncode = 0 \<and> (out \<noteq> [] \<or> v_tools_used st \<noteq> []));
                         out1 = (if out = [] \<and> v_tools_used st \<noteq> [] then NO_TEXT_OUTPUT
                                 else out)
                     in Inr (final_response rt is_success out1 st))))"

text \<open>What \<^verbatim>\<open>subprocess.run\<close> does: the process exits with a return code, its standard
  output and standard error; or the timeout expires (the exception carries the output
  captured so far); or the call raises something else.\<close>

datatype run_result =
    Completed int string string
  | TimeoutExpired string
  | RunRaised

definition execute :: "runtime \<Rightarrow> int \<Rightarrow> run_result \<Rightarrow> claude_response" where
  "execute rt timeout run =
     (case run of
        Completed returncode stdout stderr \<Rightarrow>
          (case parse_stream_json rt returncode stdout stderr of
             Inr r \<Rightarrow> r
           | Inl e \<Rightarrow> ClaudeResponse False [] (Some (ExecutionError e)))
      | TimeoutExpired partial \<Rightarrow> ClaudeResponse False [] (Some (CommandTimeout timeout))
      | RunRaised \<Rightarrow> ClaudeResponse False [] (Some (ExecutionError RunException)))"

subsection \<open>\<^verbatim>\<open>execute_streaming\<close>\<close>

text \<open>What the subprocess does under \<^verbatim>\<open>execute_streaming\<close>: it cannot be started; or
  it writes \<open>lines\<close>, closes its output and exits with a return code and the bytes of its
  standard error; or the timeout passes while the reader waits for more, after \<open>lines\<close>
  were read. The lines are the lines of the pipe as the reader yields them, in bytes. The
  callback is taken to return without raising (the bot's one catches its own failures) and
  before the timeout (the timeout is met while the reader waits for a line, not inside a
  call of the callback).\<close>

datatype proc =
    SpawnFailed
  | Exited "string list" int string
  | Stalled "string list"

definition execute_streaming ::
  "runtime \<Rightarrow> int \<Rightarrow> bool \<Rightarrow> proc \<Rightarrow> py_error + claude_response \<times> progress list" where
  "execute_streaming rt timeout on_progress p =
     (case p of
        SpawnFailed \<Rightarrow> Inl RunException
      | Stalled lines \<Rightarrow>
          (case for_each (stream_line rt on_progress) initial_state lines of
             Inl e \<Rightarrow> Inl e
           | Inr st \<Rightarrow>
               (case join_parts (output_parts st) of
                  Inl e \<Rightarrow> Inl e
                | Inr joined \<Rightarrow>
                    Inr (ClaudeResponse False (strip joined) (Some (CommandTimeout timeout)),
                         progress st)))
      | Exited lines returncode stderr \<Rightarrow>
          (case for_each (stream_line rt on_progress) initial_state lines of
             Inl e \<Rightarrow> Inl e
           | Inr st \<Rightarrow>
               (case join_parts (output_parts st) of
                  Inl e \<Rightarrow> Inl e
                | Inr joined \<Rightarrow>
                    (let out = strip joined;
                         is_success = (returncode = 0 \<and> (out \<noteq> [] \<or> v_tools_used st \<noteq> []));
                         out1 = (if out = [] \<and> v_tools_used st \<noteq> [] then NO_TEXT_OUTPUT
                                 else out)
                     in if returncode \<noteq> 0 \<and> out1 = []
                        then Inr (ClaudeResponse False []
                                    (Some (Message
                                       (if strip (utf8_decode rt stderr) \<noteq> []
                                        then JStr (strip (utf8_decode rt stderr))
                                        else JStr ''Unknown error''))),
                                  progress st)
                        else Inr (final_response rt is_success out1 st, progress st)))))"


section \<open>The session store (bot.py)\<close>

text \<open>
  \<^verbatim>\<open>context.user_data\<close> is the dictionary the bot keeps for one user. It is modelled as
  a record of the keys the bot stores, each with the type of the values the bot writes
  under it. \<open>None\<close> in a field is a key that is absent; for the keys the code reads only
  with \<^verbatim>\<open>.get\<close> it is also a stored \<^verbatim>\<open>None\<close>, which the code cannot tell from an absent
  key. The session identifier is the exception, because \<^verbatim>\<open>initialize_user_data\<close> asks
  whether the key is there: \<open>Some JNull\<close> is a stored \<^verbatim>\<open>None\<close>.
\<close>

record preferences =
  auto_compact :: bool
  show_transcription :: bool
  max_turns_before_compact :: int

text \<open>The dictionary stored under \<^verbatim>\<open>'pending_change'\<close> (\<open>pc_id\<close> is its key
  \<^verbatim>\<open>'id'\<close>, and so on), and an entry of \<^verbatim>\<open>'approval_history'\<close>.\<close>

record pending_change =
  pc_id :: string
  pc_state :: string
  pc_prompt :: string
  pc_timestamp :: string
  pc_output :: string
  pc_session_id :: json
  pc_tools_used :: "json list"
  approved_at :: "string option"
  rejected_at :: "string option"

record history_entry =
  change_id :: string
  he_state :: string
  he_timestamp :: string
  he_prompt :: string

record user_data =
  claude_session_id :: "json option"
  turn_count :: "int option"
  last_active :: "string option"
  workspace_path :: "string option"
  last_transcription :: "string option"
  github_repo :: "string option"
  repo_path :: "string option"
  user_preferences :: "preferences option"
  last_prompt :: "string option"
  pending_change :: "pending_change option"
  approval_history :: "history_entry list option"

definition CHANGE_STATE_PENDING :: string where "CHANGE_STATE_PENDING = ''pending''"
definition CHANGE_STATE_APPROVED :: string where "CHANGE_STATE_APPROVED = ''approved''"
definition CHANGE_STATE_REJECTED :: string where "CHANGE_STATE_REJECTED = ''rejected''"

text \<open>\<^verbatim>\<open>context.user_data.update(USER_DATA_SCHEMA.copy())\<close>.\<close>

definition update_with_schema :: "user_data \<Rightarrow> user_data" where
  "update_with_schema ud =
     ud\<lparr>claude_session_id := Some JNull,
        turn_count := Some 0,
        last_active := None,
        workspace_path := Some ''/workspace'',
        last_transcription := None,
        github_repo := None,
        repo_path := None,
        user_preferences := Some \<lparr>auto_compact = True, show_transcription = True,
                                   max_turns_before_compact = 20\<rparr>\<rparr>"

text \<open>\<open>now\<close> is \<^verbatim>\<open>datetime.now().isoformat()\<close> at the call.\<close>

definition initialize_user_data :: "string \<Rightarrow> user_data \<Rightarrow> user_data" where
  "initialize_user_data now ud =
     (let ud1 = (if claude_session_id ud = None then update_with_schema ud else ud)
      in ud1\<lparr>last_active := Some now\<rparr>)"

definition get_or_create_session_id :: "string \<Rightarrow> user_data \<Rightarrow> json \<times> user_data" where
  "get_or_create_session_id now ud =
     (let ud1 = initialize_user_data now ud
      in (case claude_session_id ud1 of None \<Rightarrow> JNull | Some v \<Rightarrow> v, ud1))"

definition increment_turn_count :: "string \<Rightarrow> user_data \<Rightarrow> int \<times> user_data" where
  "increment_turn_count now ud =
     (let ud1 = initialize_user_data now ud;
          n = (case turn_count ud1 of None \<Rightarrow> 0 | Some c \<Rightarrow> c) + 1
      in (n, ud1\<lparr>turn_count := Some n\<rparr>))"

definition reset_session :: "user_data \<Rightarrow> user_data" where
  "reset_session ud = ud\<lparr>claude_session_id := Some JNull, turn_count := Some 0\<rparr>"

text \<open>\<^verbatim>\<open>str(n)\<close> for an int.\<close>

definition digit_char :: "nat \<Rightarrow> char" where
  "digit_char d = ''0123456789'' ! d"

fun str_nat :: "nat \<Rightarrow> string" where
  "str_nat n =
     (if n < 10 then [digit_char n]
      else str_nat (n div 10) @ [digit_char (n mod 10)])"

definition str_int :: "int \<Rightarrow> string" where
  "str_int i = (if i < 0 then CHR ''-'' # str_nat (nat (- i)) else str_nat (nat i))"

text \<open>The prompt \<^verbatim>\<open>handle_text\<close> sends: the text, behind a note on the linked
  repository when there is one.\<close>

definition build_prompt :: "user_data \<Rightarrow> string \<Rightarrow> string" where
  "build_prompt ud txt =
     (case (github_repo ud, repo_path ud) of
        (Some g, Some p) \<Rightarrow>
          (if g \<noteq> [] \<and> p \<noteq> []
           then ''[Context: Working on GitHub repo `'' @ g @ ''` at `'' @ p @ ''`. '' @
                ''Use this as the working directory for all file operations, git commands, etc.]'' @
                [CHR 0x0A, CHR 0x0A] @ txt
           else txt)
      | _ \<Rightarrow> txt)"

text \<open>What \<^verbatim>\<open>handle_text\<close> answers (the texts and keyboards it sends are the chat
  transport's matter).\<close>

datatype text_reply =
    Unauthorized
  | Answered claude_response
  | ExecutionFailed "error_msg option"
  | ExecutionErrorReply py_error

text \<open>The details of a successful run are built with
  \<^verbatim>\<open>f"... Cost: ${claude_response.cost_usd:.4f} ..."\<close>: the format code fits a number (an
  int, a float or a bool) only. A str raises ValueError, any other value TypeError.\<close>

fun cost_format_error :: "json \<Rightarrow> py_error option" where
  "cost_format_error (JInt i) = None"
| "cost_format_error (JFloat m e) = None"
| "cost_format_error (JBool b) = None"
| "cost_format_error (JStr s) = Some ValueError"
| "cost_format_error _ = Some TypeError"

text \<open>
  \<^verbatim>\<open>handle_text\<close>, as far as it reads and writes the user's data. \<open>authorized\<close> is the
  result of \<^verbatim>\<open>check_authorization\<close>; \<open>now1\<close>, \<open>now2\<close>, \<open>now3\<close> and \<open>ts\<close> are the clock
  at the calls that read it (\<open>ts\<close> in whole seconds); \<open>run\<close> is
  \<^verbatim>\<open>claude_executor.execute_streaming\<close> with the subprocess it meets, given the prompt
  and the session identifier. An exception of the run is caught by the handler: the
  data stay as they were before the run. On a successful run the pending change is
  stored before the details are built: when the cost cannot be formatted, the handler
  catches the exception and answers with the execution error, the data staying as
  stored.
\<close>

definition handle_text ::
  "bool \<Rightarrow> int \<Rightarrow> string \<Rightarrow> string \<Rightarrow> string \<Rightarrow> string \<Rightarrow> int \<Rightarrow>
   (string \<Rightarrow> json \<Rightarrow> py_error + claude_response \<times> progress list) \<Rightarrow>
   user_data \<Rightarrow> text_reply \<times> user_data" where
  "handle_text authorized user_id txt now1 now2 now3 ts run ud =
     (if \<not> authorized then (Unauthorized, ud)
      else
        (let ud1 = ud\<lparr>last_prompt := Some txt\<rparr>;
             (sid, ud2) = get_or_create_session_id now1 ud1;
             (turn, ud3) = increment_turn_count now2 ud2
         in case run (build_prompt ud3 txt) sid of
              Inl e \<Rightarrow> (ExecutionErrorReply e, ud3)
            | Inr (claude_response, notes) \<Rightarrow>
                (let ud4 = (if truthy (session_id claude_response)
                            then ud3\<lparr>claude_session_id := Some (session_id claude_response)\<rparr>
                            else ud3)
                 in if success claude_response
                    then (case cost_format_error (cost_usd claude_response) of
                            None \<Rightarrow> Answered claude_response
                          | Some e \<Rightarrow> ExecutionErrorReply e,
                          ud4\<lparr>pending_change := Some
                               \<lparr>pc_id = ''change_'' @ str_int user_id @ ''_'' @ str_int ts,
                                pc_state = CHANGE_STATE_PENDING,
                                pc_prompt = txt,
                                pc_timestamp = now3,
                                pc_output = output_text claude_response,
                                pc_session_id = (case claude_session_id ud4 of
                                                   None \<Rightarrow> JNull | Some v \<Rightarrow> v),
                                pc_tools_used = tools_used claude_response,
                                approved_at = None,
                                rejected_at = None\<rparr>\<rparr>)
                    else (ExecutionFailed (error claude_response), ud4))))"

text \<open>\<^verbatim>\<open>handle_clear\<close> (the \<^verbatim>\<open>/clear\<close> command): with a pending change it asks for a
  confirmation and changes nothing.\<close>

datatype clear_reply =
    ClearUnauthorized
  | PendingChangesWarning
  | SessionCleared
  | ClearCancelled
  | NoClearAction

definition is_pending :: "user_data \<Rightarrow> bool" where
  "is_pending ud =
     (case pending_change ud of
        None \<Rightarrow> False
      | Some pc \<Rightarrow> pc_state pc = CHANGE_STATE_PENDING)"

definition handle_clear :: "bool \<Rightarrow> user_data \<Rightarrow> clear_reply \<times> user_data" where
  "handle_clear authorized ud =
     (if \<not> authorized then (ClearUnauthorized, ud)
      else if is_pending ud then (PendingChangesWarning, ud)
      else (SessionCleared,
            ud\<lparr>claude_session_id := Some JNull, turn_count := Some 0,
               pending_change := None\<rparr>))"


section \<open>The approval callbacks (callback_handlers.py)\<close>

definition handle_clear_callback :: "string option \<Rightarrow> user_data \<Rightarrow> clear_reply \<times> user_data" where
  "handle_clear_callback action ud =
     (if action = Some ''confirm''
      then (SessionCleared,
            ud\<lparr>claude_session_id := Some JNull, turn_count := Some 0,
               pending_change := None\<rparr>)
      else if action = Some ''cancel'' then (ClearCancelled, ud)
      else (NoClearAction, ud))"

text \<open>\<^verbatim>\<open>GitStatus\<close>, and what the repository answers to the calls the callbacks make:
  \<^verbatim>\<open>is_git_repo()\<close>, \<^verbatim>\<open>get_status()\<close>, \<^verbatim>\<open>add_files()\<close> and \<^verbatim>\<open>commit(message)\<close>. The
  calls that change the repository are returned as a list, in the order made.\<close>

record git_status =
  is_repo :: bool
  is_clean :: bool
  branch :: string
  staged :: "string list"
  modified :: "string list"
  untracked :: "string list"
  ahead :: int
  behind :: int

record git_ops =
  is_git_repo :: bool
  get_status :: "git_status option"
  add_files :: "bool \<times> string"
  commit :: "string \<Rightarrow> bool \<times> string"

datatype git_call = AddFiles | Commit string

text \<open>The messages the callbacks show, by their headline.\<close>

datatype reply =
    ApprovedAndCommitted string string
  | ApprovedCommitFailed string
  | ApprovedStagingFailed string
  | ApprovedNoGitChanges
  | ApprovedNotARepository
  | NoPendingChanges
  | RejectedGitChangesDetected
  | RejectedNoModifications
  | RetryingCommand string
  | NoPreviousCommand
  | MessageDeleted
  | MainKeyboard
  | UnknownAction "string option"

text \<open>\<^verbatim>\<open>history.append(entry)\<close>, then \<^verbatim>\<open>history[-20:]\<close> when it has more than 20
  entries; the key is created with an empty list when absent.\<close>

definition append_history :: "history_entry \<Rightarrow> user_data \<Rightarrow> user_data" where
  "append_history entry ud =
     (let h0 = (case approval_history ud of None \<Rightarrow> [] | Some h \<Rightarrow> h);
          h1 = h0 @ [entry];
          h2 = (if length h1 > 20 then drop (length h1 - 20) h1 else h1)
      in ud\<lparr>approval_history := Some h2\<rparr>)"

definition commit_message :: "pending_change \<Rightarrow> string" where
  "commit_message pc =
     ''Apply changes from Claude'' @ [CHR 0x0A, CHR 0x0A] @ ''Prompt: '' @ take 100 (pc_prompt pc)"

text \<open>The branch \<^verbatim>\<open>action == 'approve'\<close>; \<open>now1\<close> and \<open>now2\<close> are the two readings
  of the clock. The change is first marked as decided in place and at the end replaced
  by \<^verbatim>\<open>None\<close>. The chat transport is taken to deliver the answer: were it to raise, the
  change would stay stored in its decided state, which is not pending either.\<close>

definition approve ::
  "git_ops \<Rightarrow> string \<Rightarrow> string \<Rightarrow> user_data \<Rightarrow> reply \<times> git_call list \<times> user_data" where
  "approve git now1 now2 ud =
     (case pending_change ud of
        None \<Rightarrow> (NoPendingChanges, [], ud)
      | Some pc0 \<Rightarrow>
          (if pc_state pc0 = CHANGE_STATE_PENDING
           then
             (let pc = pc0\<lparr>pc_state := CHANGE_STATE_APPROVED, approved_at := Some now1\<rparr>;
                  ud1 = ud\<lparr>pending_change := Some pc\<rparr>;
                  ud2 = append_history
                          \<lparr>change_id = pc_id pc, he_state = CHANGE_STATE_APPROVED,
                           he_timestamp = now2, he_prompt = take 100 (pc_prompt pc)\<rparr> ud1;
                  (answer, calls) =
                    (if is_git_repo git
                     then (case get_status git of
                             None \<Rightarrow> (ApprovedNoGitChanges, [])
                           | Some status \<Rightarrow>
                               (if \<not> is_clean status
                                then (if fst (add_files git)
                                      then (let commit_msg = commit_message pc
                                            in if fst (commit git commit_msg)
                                               then (ApprovedAndCommitted
                                                       (snd (commit git commit_msg))
                                                       (hd (split_on CHR 0x0A commit_msg)),
                                                     [AddFiles, Commit commit_msg])
                                               else (ApprovedCommitFailed
                                                       (snd (commit git commit_msg)),
                                                     [AddFiles, Commit commit_msg]))
                                      else (ApprovedStagingFailed (snd (add_files git)),
                                            [AddFiles]))
                                else (ApprovedNoGitChanges, [])))
                     else (ApprovedNotARepository, []))
              in (answer, calls, ud2\<lparr>pending_change := None\<rparr>))
           else (NoPendingChanges, [], ud)))"

text \<open>The branch \<^verbatim>\<open>action == 'reject'\<close>: no call changes the repository.\<close>

definition reject ::
  "git_ops \<Rightarrow> string \<Rightarrow> string \<Rightarrow> user_data \<Rightarrow> reply \<times> git_call list \<times> user_data" where
  "reject git now1 now2 ud =
     (case pending_change ud of
        None \<Rightarrow> (NoPendingChanges, [], ud)
      | Some pc0 \<Rightarrow>
          (if pc_state pc0 = CHANGE_STATE_PENDING
           then
             (let pc = pc0\<lparr>pc_state := CHANGE_STATE_REJECTED, rejected_at := Some now1\<rparr>;
                  ud1 = ud\<lparr>pending_change := Some pc\<rparr>;
                  ud2 = append_history
                          \<lparr>change_id = pc_id pc, he_state = CHANGE_STATE_REJECTED,
                           he_timestamp = now2, he_prompt = take 100 (pc_prompt pc)\<rparr> ud1;
                  answer =
                    (if is_git_repo git
                     then (case get_status git of
                             None \<Rightarrow> RejectedNoModifications
                           | Some status \<Rightarrow>
                               (if \<not> is_clean status then RejectedGitChangesDetected
                                else RejectedNoModifications))
                     else RejectedNoModifications)
              in (answer, [], ud2\<lparr>pending_change := None\<rparr>))
           else (NoPendingChanges, [], ud)))"

definition handle_action_callback ::
  "git_ops \<Rightarrow> string \<Rightarrow> string \<Rightarrow> string option \<Rightarrow> user_data \<Rightarrow>
   reply \<times> git_call list \<times> user_data" where
  "handle_action_callback git now1 now2 action ud =
     (if action = Some ''approve'' then approve git now1 now2 ud
      else if action = Some ''reject'' then reject git now1 now2 ud
      else if action = Some ''retry''
      then (let retry_text =
                  (case last_transcription ud of
                     Some t \<Rightarrow> if t \<noteq> [] then Some t else last_prompt ud
                   | None \<Rightarrow> last_prompt ud)
            in case retry_text of
                 Some t \<Rightarrow> (if t \<noteq> [] then (RetryingCommand (take 100 t), [], ud)
                            else (NoPreviousCommand, [], ud))
               | None \<Rightarrow> (NoPreviousCommand, [], ud))
      else if action = Some ''dismiss'' then (MessageDeleted, [], ud)
      else if action = Some ''back'' then (MainKeyboard, [], ud)
      else (UnknownAction action, [], ud))"


section \<open>Splitting a response (formatters.py)\<close>

record formatted_message =
  msg_text :: string
  parse_mode :: string
  has_code :: bool

definition FENCE :: string where
  "FENCE = [CHR 0x60, CHR 0x60, CHR 0x60]"

definition FormattedMessage :: "string \<Rightarrow> formatted_message" where
  "FormattedMessage t =
     \<lparr>msg_text = t, parse_mode = ''Markdown'', has_code = contains_str FENCE t\<rparr>"

text \<open>The start positions of the matches of \<^verbatim>\<open>re.finditer\<close> for a pattern that is a
  fixed, non-empty text: leftmost first, not overlapping. \<open>i\<close> is the position of the
  head of the list and \<open>skip\<close> the number of characters that still belong to the last
  match.\<close>

fun finditer_from :: "string \<Rightarrow> nat \<Rightarrow> nat \<Rightarrow> string \<Rightarrow> nat list" where
  "finditer_from p i skip [] = []"
| "finditer_from p i skip (x # xs) =
     (if skip > 0 then finditer_from p (i + 1) (skip - 1) xs
      else if starts_with p (x # xs) then i # finditer_from p (i + 1) (length p - 1) xs
      else finditer_from p (i + 1) 0 xs)"

definition finditer :: "string \<Rightarrow> string \<Rightarrow> nat list" where
  "finditer p s = finditer_from p 0 0 s"

text \<open>The matches of the pattern for a fenced block, a fence, as little text as
  possible and the next fence, as pairs of start and end: \<open>opened\<close> is the start of a
  fence that waits for its closing one. A fence that is never closed gives no match,
  and neither does anything after it.\<close>

fun code_blocks_from :: "nat \<Rightarrow> nat \<Rightarrow> nat option \<Rightarrow> string \<Rightarrow> (nat \<times> nat) list" where
  "code_blocks_from i skip opened [] = []"
| "code_blocks_from i skip opened (x # xs) =
     (if skip > 0 then code_blocks_from (i + 1) (skip - 1) opened xs
      else if starts_with FENCE (x # xs)
      then (case opened of
              None \<Rightarrow> code_blocks_from (i + 1) 2 (Some i) xs
            | Some a \<Rightarrow> (a, i + 3) # code_blocks_from (i + 1) 2 None xs)
      else code_blocks_from (i + 1) 0 opened xs)"

definition code_blocks :: "string \<Rightarrow> (nat \<times> nat) list" where
  "code_blocks s = code_blocks_from 0 0 None s"

text \<open>\<^verbatim>\<open>_find_split_point\<close>; \<open>max_length\<close> is the formatter's limit.\<close>

definition find_split_point :: "nat \<Rightarrow> string \<Rightarrow> nat" where
  "find_split_point max_length txt =
     (let max_search = min max_length (length txt);
          blocks = code_blocks (take (max_search + 500) txt)
      in if blocks \<noteq> [] \<and> snd (last blocks) \<le> max_length then snd (last blocks)
         else
           (let search_text = take max_search txt;
                para_splits = finditer [CHR 0x0A, CHR 0x0A] search_text;
                line_splits = finditer [CHR 0x0A] search_text;
                sentence_splits = finditer ''. '' search_text;
                word_splits = finditer '' '' search_text
            in if para_splits \<noteq> [] then last para_splits + 2
               else if line_splits \<noteq> [] then last line_splits + 1
               else if sentence_splits \<noteq> [] then last sentence_splits + 2
               else if word_splits \<noteq> [] then last word_splits + 1
               else max_length))"

definition CONTINUED_AFTER :: string where
  "CONTINUED_AFTER = [CHR 0x0A, CHR 0x0A] @ ''_(...continued)_''"

definition CONTINUED_BEFORE :: string where
  "CONTINUED_BEFORE = ''_(...continued)_'' @ [CHR 0x0A, CHR 0x0A]"

text \<open>The \<^verbatim>\<open>while\<close> loop of \<^verbatim>\<open>_split_message\<close>. It need not end (with a limit of 0 the
  split point can be 0 and nothing is consumed), so the result is an option and \<open>None\<close>
  is a loop that runs forever.\<close>

partial_function (option) split_loop ::
  "nat \<Rightarrow> formatted_message list \<Rightarrow> string \<Rightarrow> (formatted_message list \<times> string) option" where
  "split_loop max_length messages remaining =
     (if length remaining > max_length
      then (let split_point = find_split_point max_length remaining;
                chunk = strip (take split_point remaining);
                remaining1 = strip (drop split_point remaining);
                chunk1 = (if remaining1 \<noteq> [] then chunk @ CONTINUED_AFTER else chunk)
            in split_loop max_length (messages @ [FormattedMessage chunk1]) remaining1)
      else Some (messages, remaining))"

declare split_loop.simps [code]

definition split_message :: "nat \<Rightarrow> string \<Rightarrow> formatted_message list option" where
  "split_message max_length txt =
     (case split_loop max_length [] txt of
        None \<Rightarrow> None
      | Some (messages, remaining) \<Rightarrow>
          (if remaining \<noteq> []
           then Some (messages @
                  [FormattedMessage (if messages \<noteq> [] then CONTINUED_BEFORE @ remaining
                                     else remaining)])
           else Some messages))"

definition format_response ::
  "nat \<Rightarrow> string \<Rightarrow> bool \<Rightarrow> string \<Rightarrow> formatted_message list option" where
  "format_response max_length txt add_header header_text =
     (if txt = [] \<or> strip txt = []
      then Some [\<lparr>msg_text = ''(Empty response)'', parse_mode = ''Markdown'', has_code = False\<rparr>]
      else (let txt1 = (if add_header then header_text @ txt else txt)
            in if length txt1 \<le> max_length then Some [FormattedMessage txt1]
               else split_message max_length txt1))"

text \<open>The number of fence markers in a unit, counted from the left without overlap;
  a unit leaves no fence open when the number is even.\<close>

definition fence_count :: "string \<Rightarrow> nat" where
  "fence_count s = length (finditer FENCE s)"


section \<open>A user's history of events\<close>

text \<open>The dictionary of a user the bot has not met: no key.\<close>

definition empty_user_data :: user_data where
  "empty_user_data =
     \<lparr>claude_session_id = None, turn_count = None, last_active = None,
      workspace_path = None, last_transcription = None, github_repo = None,
      repo_path = None, user_preferences = None, last_prompt = None,
      pending_change = None, approval_history = None\<rparr>"

text \<open>\<^verbatim>\<open>context.user_data.get('approval_history', [])\<close>.\<close>

definition history :: "user_data \<Rightarrow> history_entry list" where
  "history ud = (case approval_history ud of None \<Rightarrow> [] | Some h \<Rightarrow> h)"

text \<open>What reaches the handlers for one user, each with what the handler reads from
  outside the user's data: a text message, a press of an action button, the
  \<^verbatim>\<open>/clear\<close> command, a press of a button of the clear confirmation.\<close>

datatype bot_event =
    TextMessage bool int string string string string int
      "string \<Rightarrow> json \<Rightarrow> py_error + claude_response \<times> progress list"
  | ActionCallback git_ops string string "string option"
  | ClearCommand bool
  | ClearCallback "string option"

fun handle :: "user_data \<Rightarrow> bot_event \<Rightarrow> user_data" where
  "handle ud (TextMessage authorized user_id txt now1 now2 now3 ts run) =
     snd (handle_text authorized user_id txt now1 now2 now3 ts run ud)"
| "handle ud (ActionCallback git now1 now2 action) =
     snd (snd (handle_action_callback git now1 now2 action ud))"
| "handle ud (ClearCommand authorized) = snd (handle_clear authorized ud)"
| "handle ud (ClearCallback action) = snd (handle_clear_callback action ud)"

definition handle_all :: "user_data \<Rightarrow> bot_event list \<Rightarrow> user_data" where
  "handle_all ud evs = foldl handle ud evs"

text \<open>The decisions taken while the events are handled, oldest first, each as the
  entry the specification asks the history to hold for it: a press of approve or reject
  is a decision when a change is pending at that moment.\<close>

definition decision_of :: "user_data \<Rightarrow> bot_event \<Rightarrow> history_entry list" where
  "decision_of ud ev =
     (case ev of
        ActionCallback git now1 now2 action \<Rightarrow>
          (case pending_change ud of
             None \<Rightarrow> []
           | Some pc \<Rightarrow>
               (if pc_state pc = CHANGE_STATE_PENDING \<and> action = Some ''approve''
                then [\<lparr>change_id = pc_id pc, he_state = CHANGE_STATE_APPROVED,
                       he_timestamp = now2, he_prompt = take 100 (pc_prompt pc)\<rparr>]
                else if pc_state pc = CHANGE_STATE_PENDING \<and> action = Some ''reject''
                then [\<lparr>change_id = pc_id pc, he_state = CHANGE_STATE_REJECTED,
                       he_timestamp = now2, he_prompt = take 100 (pc_prompt pc)\<rparr>]
                else []))
      | _ \<Rightarrow> [])"

fun decisions :: "user_data \<Rightarrow> bot_event list \<Rightarrow> history_entry list" where
  "decisions ud [] = []"
| "decisions ud (ev # evs) = decision_of ud ev @ decisions (handle ud ev) evs"


section \<open>What a stream of events holds\<close>

text \<open>
  The notions the claims about the executor are stated with, read off a list of decoded
  events: the content blocks of an \<^verbatim>\<open>assistant\<close> event, the texts of the \<^verbatim>\<open>text\<close>
  blocks and the names of the \<^verbatim>\<open>tool_use\<close> blocks in the order of arrival, the names
  in the order in which each was first seen, and the \<^verbatim>\<open>system/init\<close> events.
\<close>

fun event_blocks :: "json \<Rightarrow> json list" where
  "event_blocks (JObj ev) =
     (if dict_get ev ''type'' JNull = JStr ''assistant''
      then (case py_get (dict_get ev ''message'' (JObj [])) ''content'' (JArr []) of
              Inl e \<Rightarrow> []
            | Inr content \<Rightarrow> (case py_iter content of Inl e \<Rightarrow> [] | Inr blocks \<Rightarrow> blocks))
      else [])"
| "event_blocks _ = []"

fun block_texts :: "json \<Rightarrow> json list" where
  "block_texts (JObj b) =
     (if dict_get b ''type'' JNull = JStr ''text'' then [dict_get b ''text'' (JStr [])] else [])"
| "block_texts _ = []"

fun block_tools :: "json \<Rightarrow> json list" where
  "block_tools (JObj b) =
     (if dict_get b ''type'' JNull = JStr ''tool_use''
      then [dict_get b ''name'' (JStr ''unknown'')] else [])"
| "block_tools _ = []"

definition stream_texts :: "json list \<Rightarrow> json list" where
  "stream_texts evs = concat (map (\<lambda>e. concat (map block_texts (event_blocks e))) evs)"

definition stream_tools :: "json list \<Rightarrow> json list" where
  "stream_tools evs = concat (map (\<lambda>e. concat (map block_tools (event_blocks e))) evs)"

text \<open>An \<^verbatim>\<open>assistant\<close> event with one \<^verbatim>\<open>text\<close> block.\<close>

definition text_event :: "string \<Rightarrow> json" where
  "text_event t =
     JObj [(''type'', JStr ''assistant''),
           (''message'', JObj [(''content'',
              JArr [JObj [(''type'', JStr ''text''), (''text'', JStr t)]])])]"

text \<open>The text of a list of parts, as \<^verbatim>\<open>''.join\<close> gives it when every part is a str.\<close>

definition plain_text :: "json list \<Rightarrow> string" where
  "plain_text parts = concat (map (\<lambda>p. case p of JStr s \<Rightarrow> s | _ \<Rightarrow> []) parts)"

definition seen_add :: "json list \<Rightarrow> json \<Rightarrow> json list" where
  "seen_add s x = (if list_ex (py_eq x) s then s else s @ [x])"

definition first_seen :: "json list \<Rightarrow> json list" where
  "first_seen names = foldl seen_add [] names"

fun is_init :: "json \<Rightarrow> bool" where
  "is_init (JObj ev) =
     (dict_get ev ''type'' JNull = JStr ''system'' \<and> dict_get ev ''subtype'' JNull = JStr ''init'')"
| "is_init _ = False"

fun is_result :: "json \<Rightarrow> bool" where
  "is_result (JObj ev) = (dict_get ev ''type'' JNull = JStr ''result'')"
| "is_result _ = False"

fun field :: "string \<Rightarrow> json \<Rightarrow> json" where
  "field k (JObj ev) = dict_get ev k JNull"
| "field k _ = JNull"

text \<open>The session identifier and the model after one more event, from the ones before
  it: an init event sets both; a result event sets the identifier when none is set.\<close>

definition next_session_id :: "json \<Rightarrow> json \<Rightarrow> json" where
  "next_session_id cur e =
     (if is_init e then field ''session_id'' e
      else if is_result e \<and> \<not> truthy cur then field ''session_id'' e
      else cur)"

definition next_model :: "json \<Rightarrow> json \<Rightarrow> json" where
  "next_model cur e = (if is_init e then field ''model'' e else cur)"

text \<open>The loop's variables agree with the events it has appended.\<close>

definition agrees :: "parse_state \<Rightarrow> bool" where
  "agrees st =
     (output_parts st = stream_texts (events st)
      \<and> v_tools_used st = first_seen (stream_tools (events st))
      \<and> v_session_id st = foldl next_session_id JNull (events st)
      \<and> v_model st = foldl next_model JNull (events st))"

text \<open>The events of the lines of a stream: a blank line and a line that does not decode
  give none. \<^verbatim>\<open>_parse_stream_json\<close> decodes the line as it is, \<^verbatim>\<open>execute_streaming\<close>
  the text of the line, stripped.\<close>

definition loaded :: "runtime \<Rightarrow> string \<Rightarrow> json option" where
  "loaded rt l = (case json_loads rt l of Inl e \<Rightarrow> None | Inr event \<Rightarrow> Some event)"

definition decoded :: "runtime \<Rightarrow> string list \<Rightarrow> json list" where
  "decoded rt lines =
     List.map_filter (\<lambda>l. if strip l = [] then None else loaded rt l) lines"

definition decoded_stripped :: "runtime \<Rightarrow> string list \<Rightarrow> json list" where
  "decoded_stripped rt lines =
     List.map_filter
       (\<lambda>raw. if strip (utf8_decode rt raw) = [] then None
              else loaded rt (strip (utf8_decode rt raw))) lines"

text \<open>
  What the loops read without an exception. A content block is read when it is an
  object and, being a \<^verbatim>\<open>tool_use\<close> block, has a name that a set can hold; under
  \<^verbatim>\<open>execute_streaming\<close> with a callback the text of the notification must be built as
  well. An event is read when it is an object and, being an \<^verbatim>\<open>assistant\<close> event, has
  an object as its message whose content can be iterated and holds blocks that are
  read, and, being a \<^verbatim>\<open>result\<close> event, has an object as its usage. A line is read when
  it is blank, or \<^verbatim>\<open>json.loads\<close> rejects it with JSONDecodeError, or it decodes to an
  event that is read; under \<^verbatim>\<open>execute_streaming\<close> it must also be within the limit of
  the reader. A stream is read when each of its lines is and every text collected is a
  str (\<^verbatim>\<open>''.join\<close> raises on anything else).
\<close>

fun is_str :: "json \<Rightarrow> bool" where
  "is_str (JStr s) = True"
| "is_str _ = False"

fun block_read :: "json \<Rightarrow> bool" where
  "block_read (JObj b) =
     (if dict_get b ''type'' JNull = JStr ''tool_use''
      then hashable (dict_get b ''name'' (JStr ''unknown'')) else True)"
| "block_read _ = False"

fun stream_block_read :: "bool \<Rightarrow> json \<Rightarrow> bool" where
  "stream_block_read on_progress (JObj b) =
     (if dict_get b ''type'' JNull = JStr ''tool_use''
      then hashable (dict_get b ''name'' (JStr ''unknown''))
           \<and> (if on_progress
                then (case tool_detail (dict_get b ''name'' (JStr ''unknown''))
                             (dict_get b ''input'' (JObj [])) of
                        Inl e \<Rightarrow> False
                      | Inr d \<Rightarrow> True)
                else True)
      else True)"
| "stream_block_read on_progress _ = False"

fun is_object :: "json \<Rightarrow> bool" where
  "is_object (JObj kvs) = True"
| "is_object _ = False"

fun event_read :: "(json \<Rightarrow> bool) \<Rightarrow> json \<Rightarrow> bool" where
  "event_read block_ok (JObj ev) =
     (if is_init (JObj ev) then True
      else if dict_get ev ''type'' JNull = JStr ''assistant''
      then (case py_get (dict_get ev ''message'' (JObj [])) ''content'' (JArr []) of
              Inl e \<Rightarrow> False
            | Inr content \<Rightarrow>
                (case py_iter content of
                   Inl e \<Rightarrow> False
                 | Inr blocks \<Rightarrow> list_all block_ok blocks))
      else if dict_get ev ''type'' JNull = JStr ''result''
      then is_object (dict_get ev ''usage'' (JObj []))
      else True)"
| "event_read block_ok _ = False"

definition text_read :: "(json \<Rightarrow> bool) \<Rightarrow> runtime \<Rightarrow> string \<Rightarrow> bool" where
  "text_read block_ok rt l =
     (case json_loads rt l of
        Inl e \<Rightarrow> e = JSONDecodeError
      | Inr event \<Rightarrow> event_read block_ok event)"

definition line_read :: "runtime \<Rightarrow> string \<Rightarrow> bool" where
  "line_read rt l = (if strip l = [] then True else text_read block_read rt l)"

definition stream_line_read :: "runtime \<Rightarrow> bool \<Rightarrow> string \<Rightarrow> bool" where
  "stream_line_read rt on_progress raw =
     (\<not> over_limit raw
      \<and> (if strip (utf8_decode rt raw) = [] then True
           else text_read (stream_block_read on_progress) rt (strip (utf8_decode rt raw))))"

definition readable :: "runtime \<Rightarrow> string list \<Rightarrow> bool" where
  "readable rt lines =
     (list_all (line_read rt) lines \<and> list_all is_str (stream_texts (decoded rt lines)))"

definition stream_readable :: "runtime \<Rightarrow> bool \<Rightarrow> string list \<Rightarrow> bool" where
  "stream_readable rt on_progress lines =
     (list_all (stream_line_read rt on_progress) lines
      \<and> list_all is_str (stream_texts (decoded_stripped rt lines)))"

text \<open>The aggregated output text is not empty, or a tool was used.\<close>

definition productive :: "json list \<Rightarrow> bool" where
  "productive evs = (strip (plain_text (stream_texts evs)) \<noteq> [] \<or> stream_tools evs \<noteq> [])"

text \<open>A treatment of blocks that does what both variants do to the texts and the tool
  names.\<close>

definition block_like :: "(parse_state \<Rightarrow> json \<Rightarrow> py_error + parse_state) \<Rightarrow> bool" where
  "block_like f =
     (\<forall>st b st'. f st b = Inr st' \<longrightarrow>
        output_parts st' = output_parts st @ block_texts b
        \<and> v_tools_used st' = foldl seen_add (v_tools_used st) (block_tools b)
        \<and> events st' = events st \<and> v_session_id st' = v_session_id st
        \<and> v_model st' = v_model st)"

text \<open>A turn count other than 0 is stored only beside a session identifier key; the
  handlers keep it so from the first contact on.\<close>

definition counted_with_key :: "user_data \<Rightarrow> bool" where
  "counted_with_key ud =
     (claude_session_id ud \<noteq> None \<or> turn_count ud = None \<or> turn_count ud = Some 0)"

section \<open>Sample inputs\<close>

definition linked_user_data :: user_data where
  "linked_user_data =
     \<lparr>claude_session_id = Some (JStr ''0b9f''), turn_count = Some 7,
      last_active = Some ''2026-01-05T10:00:00'', workspace_path = Some ''/workspace'',
      last_transcription = None, github_repo = Some ''octo/demo'',
      repo_path = Some ''/workspace/demo'', user_preferences = None,
      last_prompt = Some ''add tests'', pending_change = None,
      approval_history = Some [\<lparr>change_id = ''change_1_1'', he_state = ''approved'',
                                he_timestamp = ''2026-01-05T09:00:00'',
                                he_prompt = ''add tests''\<rparr>]\<rparr>"

definition is_commit :: "git_call \<Rightarrow> bool" where
  "is_commit c = (case c of Commit m \<Rightarrow> True | AddFiles \<Rightarrow> False)"

definition tested_change :: pending_change where
  "tested_change =
     \<lparr>pc_id = ''change_12345_1700000000'', pc_state = ''pending'',
      pc_prompt = ''add tests'', pc_timestamp = ''2026-01-05T10:00:00'',
      pc_output = ''Added tests.'', pc_session_id = JStr ''0b9f'',
      pc_tools_used = [JStr ''Write''], approved_at = None, rejected_at = None\<rparr>"

definition dirty_repo :: git_ops where
  "dirty_repo =
     \<lparr>is_git_repo = True,
      get_status = Some \<lparr>is_repo = True, is_clean = False, branch = ''main'', staged = [],
                         modified = [''bot.py''], untracked = [], ahead = 0, behind = 0\<rparr>,
      add_files = (True, ''All changes staged''),
      commit = (\<lambda>m. (True, ''abc1234''))\<rparr>"

text \<open>A round of the approval workflow: a text message whose run succeeds, then a press
  of approve; \<open>n\<close> numbers the round and stands for its clock.\<close>

definition answering_run :: "string \<Rightarrow> json \<Rightarrow> py_error + claude_response \<times> progress list" where
  "answering_run p sid = Inr (ClaudeResponse True ''Done.'' None, [])"

definition approval_round :: "nat \<Rightarrow> bot_event list" where
  "approval_round n =
     [TextMessage True 12345 ''add tests'' (str_nat n) (str_nat n) (str_nat n) (int n)
        answering_run,
      ActionCallback dirty_repo (str_nat n) (str_nat n) (Some ''approve'')]"

text \<open>Lines of a stream with what \<^verbatim>\<open>json.loads\<close> returns for each, and runtimes that
  decode these lines and reject every other text with JSONDecodeError (the lines are in
  ASCII, which decodes to itself): one whose sets iterate in the order of insertion, one
  whose sets iterate the name \<^verbatim>\<open>Write\<close> before every other.\<close>

definition INIT_1_LINE :: string where
  \<open>INIT_1_LINE = ''{"type":"system","subtype":"init","session_id":"s-1","model":"m-1"}''\<close>

definition INIT_2_LINE :: string where
  \<open>INIT_2_LINE = ''{"type":"system","subtype":"init","session_id":"s-2","model":"m-2"}''\<close>

definition TEXT_A_LINE :: string where
  \<open>TEXT_A_LINE = ''{"type":"assistant","message":{"content":[{"type":"text","text":" a"}]}}''\<close>

definition TEXT_B_LINE :: string where
  \<open>TEXT_B_LINE = ''{"type":"assistant","message":{"content":[{"type":"text","text":"b "}]}}''\<close>

definition TEXT_C_LINE :: string where
  \<open>TEXT_C_LINE = ''{"type":"assistant","message":{"content":[{"type":"text","text":"c"}]}}''\<close>

definition READ_LINE :: string where
  \<open>READ_LINE = ''{"type":"assistant","message":{"content":[{"type":"tool_use","name":"Read"}]}}''\<close>

definition WRITE_LINE :: string where
  \<open>WRITE_LINE = ''{"type":"assistant","message":{"content":[{"type":"tool_use","name":"Write"}]}}''\<close>

definition MALFORMED_LINE :: string where
  "MALFORMED_LINE = ''MALFORMED JSON LINE''"

definition EMPTY_LIST_LINE :: string where
  "EMPTY_LIST_LINE = ''[]''"

definition init_event :: "string \<Rightarrow> string \<Rightarrow> json" where
  "init_event sid m =
     JObj [(''type'', JStr ''system''), (''subtype'', JStr ''init''),
           (''session_id'', JStr sid), (''model'', JStr m)]"

definition tool_event :: "string \<Rightarrow> json" where
  "tool_event name =
     JObj [(''type'', JStr ''assistant''),
           (''message'', JObj [(''content'',
              JArr [JObj [(''type'', JStr ''tool_use''), (''name'', JStr name)]])])]"

definition sample_lines :: "(string \<times> json) list" where
  "sample_lines =
     [(INIT_1_LINE, init_event ''s-1'' ''m-1''),
      (INIT_2_LINE, init_event ''s-2'' ''m-2''),
      (TEXT_A_LINE, text_event '' a''),
      (TEXT_B_LINE, text_event ''b ''),
      (TEXT_C_LINE, text_event ''c''),
      (READ_LINE, tool_event ''Read''),
      (WRITE_LINE, tool_event ''Write''),
      (EMPTY_LIST_LINE, JArr [])]"

definition sample_loads :: "string \<Rightarrow> py_error + json" where
  "sample_loads l =
     (case map_of sample_lines l of None \<Rightarrow> Inl JSONDecodeError | Some v \<Rightarrow> Inr v)"

definition sample_runtime :: runtime where
  "sample_runtime =
     \<lparr>json_loads = sample_loads, set_rank = (\<lambda>s x. 0), utf8_decode = (\<lambda>b. b)\<rparr>"

definition write_first_runtime :: runtime where
  "write_first_runtime =
     \<lparr>json_loads = sample_loads,
      set_rank = (\<lambda>s x. if x = JStr ''Write'' then 0 else 1),
      utf8_decode = (\<lambda>b. b)\<rparr>"

text \<open>A process that writes one \<^verbatim>\<open>system/init\<close> event, no text and no tool call, and
  exits with code 0.\<close>

definition init_only_run :: "string \<Rightarrow> json \<Rightarrow> py_error + claude_response \<times> progress list" where
  "init_only_run p sid = execute_streaming sample_runtime 3600 True (Exited [INIT_1_LINE] 0 [])"

text \<open>The limit of the formatter the bot uses, \<^verbatim>\<open>ResponseFormatter()\<close>.\<close>

definition MAX_SAFE_LENGTH :: nat where
  "MAX_SAFE_LENGTH = 3900"

text \<open>A text that ends with a fenced block of 13 characters, behind \<open>n\<close> letters.\<close>

definition letters_then_block :: "nat \<Rightarrow> string" where
  "letters_then_block n = replicate n CHR ''a'' @ ''```x x x x```''"

section \<open>Properties of the executor\<close>

subsection \<open>The loop and the events\<close>

lemmas sample_line_defs =
  INIT_1_LINE_def INIT_2_LINE_def TEXT_A_LINE_def TEXT_B_LINE_def TEXT_C_LINE_def READ_LINE_def
  WRITE_LINE_def MALFORMED_LINE_def EMPTY_LIST_LINE_def init_event_def tool_event_def
  text_event_def

lemma within_limit: "length raw \<le> STREAM_LIMIT \<Longrightarrow> \<not> over_limit raw"
  using length_takeWhile_le [of "\<lambda>c. c \<noteq> CHR 0x0A" raw] by (simp add: over_limit_def)

lemma sample_lines_within_limit:
  "\<not> over_limit INIT_1_LINE" "\<not> over_limit INIT_2_LINE" "\<not> over_limit TEXT_A_LINE"
  "\<not> over_limit TEXT_B_LINE" "\<not> over_limit TEXT_C_LINE" "\<not> over_limit READ_LINE"
  "\<not> over_limit WRITE_LINE" "\<not> over_limit MALFORMED_LINE" "\<not> over_limit EMPTY_LIST_LINE"
  by (rule within_limit, simp add: sample_line_defs STREAM_LIMIT_def)+

lemmas sample_stream_defs =
  execute_streaming_def stream_line_def sample_lines_within_limit [unfolded sample_line_defs]
  sample_runtime_def
  sample_loads_def sample_lines_def sample_line_defs strip_def is_space_def initial_state_def
  on_init_def on_result_def dict_get_def final_response_def list_of_set_def ClaudeResponse_def
  NO_TEXT_OUTPUT_def set_add_def py_eq_def Let_def

lemmas sync_run_defs =
  execute_def parse_stream_json_def parse_line_def sample_runtime_def write_first_runtime_def
  sample_loads_def sample_lines_def sample_line_defs strip_def is_space_def initial_state_def
  on_init_def on_result_def dict_get_def final_response_def list_of_set_def ClaudeResponse_def
  NO_TEXT_OUTPUT_def set_add_def py_eq_def Let_def

lemmas stream_notion_defs =
  productive_def decoded_def decoded_stripped_def loaded_def List.map_filter_simps
  stream_texts_def stream_tools_def plain_text_def first_seen_def seen_add_def

lemmas readable_defs =
  readable_def stream_readable_def line_read_def stream_line_read_def text_read_def

lemma join_parts_plain: "join_parts ps = Inr j \<Longrightarrow> j = plain_text ps"
proof (induction ps arbitrary: j rule: join_parts.induct)
  case 1
  then show ?case by (simp add: plain_text_def)
next
  case (2 s ps)
  then show ?case by (auto simp: plain_text_def split: sum.splits)
qed simp_all

lemma set_add_seen: "set_add s x = Inr s' \<Longrightarrow> s' = seen_add s x"
  by (auto simp: set_add_def seen_add_def split: if_splits)

lemma parse_block_effect:
  assumes "parse_block st b = Inr st'"
  shows "output_parts st' = output_parts st @ block_texts b
     \<and> v_tools_used st' = foldl seen_add (v_tools_used st) (block_tools b)
     \<and> events st' = events st \<and> v_session_id st' = v_session_id st \<and> v_model st' = v_model st"
proof (cases b)
  case (JObj kvs)
  then show ?thesis
    using assms by (auto simp: Let_def split: if_splits sum.splits dest: set_add_seen)
qed (use assms in simp_all)

lemma stream_block_effect:
  assumes "stream_block on_progress st b = Inr st'"
  shows "output_parts st' = output_parts st @ block_texts b
     \<and> v_tools_used st' = foldl seen_add (v_tools_used st) (block_tools b)
     \<and> events st' = events st \<and> v_session_id st' = v_session_id st \<and> v_model st' = v_model st"
proof (cases b)
  case (JObj kvs)
  then show ?thesis
    using assms by (auto simp: Let_def split: if_splits sum.splits dest: set_add_seen)
qed (use assms in simp_all)

lemma parse_block_like: "block_like parse_block"
  unfolding block_like_def using parse_block_effect by blast

lemma stream_block_like: "block_like (stream_block on_progress)"
  unfolding block_like_def using stream_block_effect by blast

lemma blocks_effect:
  assumes "block_like f"
  shows "for_each f st bs = Inr st' \<Longrightarrow>
     output_parts st' = output_parts st @ concat (map block_texts bs)
     \<and> v_tools_used st' = foldl seen_add (v_tools_used st) (concat (map block_tools bs))
     \<and> events st' = events st \<and> v_session_id st' = v_session_id st \<and> v_model st' = v_model st"
proof (induction bs arbitrary: st)
  case Nil
  then show ?case by simp
next
  case (Cons b bs)
  from Cons.prems obtain st1 where b: "f st b = Inr st1" and rest: "for_each f st1 bs = Inr st'"
    by (auto split: sum.splits)
  from assms b have "output_parts st1 = output_parts st @ block_texts b
     \<and> v_tools_used st1 = foldl seen_add (v_tools_used st) (block_tools b)
     \<and> events st1 = events st \<and> v_session_id st1 = v_session_id st \<and> v_model st1 = v_model st"
    unfolding block_like_def by blast
  with Cons.IH [OF rest] show ?case by simp
qed

lemma on_result_effect:
  assumes "on_result st ev = Inr st'"
  shows "output_parts st' = output_parts st \<and> v_tools_used st' = v_tools_used st
     \<and> events st' = events st \<and> v_model st' = v_model st
     \<and> v_session_id st' = (if \<not> truthy (v_session_id st) then dict_get ev ''session_id'' JNull
                            else v_session_id st)"
  using assms by (auto simp: on_result_def Let_def split: sum.splits if_splits)

lemma on_event_effect:
  assumes "block_like f" and "on_event f st e = Inr st'"
  shows "output_parts st' = output_parts st @ concat (map block_texts (event_blocks e))
     \<and> v_tools_used st' =
         foldl seen_add (v_tools_used st) (concat (map block_tools (event_blocks e)))
     \<and> events st' = events st
     \<and> v_session_id st' = next_session_id (v_session_id st) e
     \<and> v_model st' = next_model (v_model st) e"
proof (cases e)
  case (JObj ev)
  consider (init) "is_init e"
    | (assistant) "\<not> is_init e" "dict_get ev ''type'' JNull = JStr ''assistant''"
    | (result) "\<not> is_init e" "dict_get ev ''type'' JNull = JStr ''result''"
    | (other) "\<not> is_init e" "dict_get ev ''type'' JNull \<noteq> JStr ''assistant''"
        "dict_get ev ''type'' JNull \<noteq> JStr ''result''"
    by blast
  then show ?thesis
  proof cases
    case init
    with JObj assms(2) show ?thesis
      by (auto simp: on_init_def next_session_id_def next_model_def)
  next
    case assistant
    with JObj assms(2) obtain content blocks
      where c: "py_get (dict_get ev ''message'' (JObj [])) ''content'' (JArr []) = Inr content"
        and i: "py_iter content = Inr blocks"
        and l: "for_each f st blocks = Inr st'"
      by (auto simp: Let_def split: sum.splits if_splits)
    from c i assistant JObj have "event_blocks e = blocks"
      by simp
    with blocks_effect [OF assms(1) l] assistant JObj show ?thesis
      by (simp add: next_session_id_def next_model_def)
  next
    case result
    with JObj assms(2) have "on_result st ev = Inr st'"
      by (auto simp: Let_def split: if_splits)
    from on_result_effect [OF this] result JObj show ?thesis
      by (auto simp: next_session_id_def next_model_def)
  next
    case other
    with JObj assms(2) show ?thesis
      by (auto simp: Let_def next_session_id_def next_model_def split: if_splits)
  qed
qed (use assms(2) in simp_all)

lemma appended_event_agrees:
  assumes "block_like f" and "agrees st"
    and "on_event f (st\<lparr>events := events st @ [e]\<rparr>) e = Inr st'"
  shows "agrees st'"
  using on_event_effect [OF assms(1,3)] assms(2)
  by (simp add: agrees_def stream_texts_def stream_tools_def first_seen_def)

lemma parse_line_agrees:
  "agrees st \<Longrightarrow> parse_line rt st line = Inr st' \<Longrightarrow> agrees st'"
  using appended_event_agrees [OF parse_block_like]
  by (auto simp: parse_line_def split: if_splits sum.splits)

lemma stream_line_agrees:
  "agrees st \<Longrightarrow> stream_line rt on_progress st raw = Inr st' \<Longrightarrow> agrees st'"
  using appended_event_agrees [OF stream_block_like]
  by (auto simp: stream_line_def Let_def split: if_splits sum.splits)

lemma loop_agrees:
  assumes "\<And>st x st'. agrees st \<Longrightarrow> f st x = Inr st' \<Longrightarrow> agrees st'"
  shows "agrees st \<Longrightarrow> for_each f st xs = Inr st' \<Longrightarrow> agrees st'"
proof (induction xs arbitrary: st)
  case Nil
  then show ?case by simp
next
  case (Cons x xs)
  from Cons.prems(2) obtain st1 where x: "f st x = Inr st1" and rest: "for_each f st1 xs = Inr st'"
    by (auto split: sum.splits)
  from assms [OF Cons.prems(1) x] rest show ?case
    by (rule Cons.IH)
qed

lemma initial_state_agrees: "agrees initial_state"
  by (simp add: agrees_def initial_state_def stream_texts_def stream_tools_def first_seen_def)

lemma parsed_agrees:
  "for_each (parse_line rt) initial_state lines = Inr st \<Longrightarrow> agrees st"
  using loop_agrees [of "parse_line rt" initial_state lines st] parse_line_agrees
    initial_state_agrees by blast

lemma streamed_agrees:
  "for_each (stream_line rt on_progress) initial_state lines = Inr st \<Longrightarrow> agrees st"
  using loop_agrees [of "stream_line rt on_progress" initial_state lines st] stream_line_agrees
    initial_state_agrees by blast

lemma first_seen_empty: "(first_seen names = []) = (names = [])"
proof -
  have grow: "foldl seen_add s xs \<noteq> []" if "s \<noteq> []" for s xs
    using that by (induction xs arbitrary: s) (auto simp: seen_add_def)
  show ?thesis
    by (cases names) (auto simp: first_seen_def seen_add_def grow)
qed

lemma on_event_keeps_events:
  assumes "block_like f" and "on_event f st e = Inr st'"
  shows "events st' = events st"
  using on_event_effect [OF assms] by simp

lemma parse_line_events:
  "parse_line rt st line = Inr st' \<Longrightarrow> events st' = events st @ decoded rt [line]"
  using on_event_keeps_events [OF parse_block_like]
  by (fastforce simp: parse_line_def decoded_def loaded_def List.map_filter_simps
      split: if_splits sum.splits)

lemma stream_line_events:
  "stream_line rt on_progress st raw = Inr st' \<Longrightarrow>
   events st' = events st @ decoded_stripped rt [raw]"
  using on_event_keeps_events [OF stream_block_like]
  by (fastforce simp: stream_line_def decoded_stripped_def loaded_def List.map_filter_simps
      Let_def split: if_splits sum.splits)

lemma decoded_append: "decoded rt (xs @ ys) = decoded rt xs @ decoded rt ys"
  by (simp add: decoded_def map_filter_def)

lemma decoded_stripped_append:
  "decoded_stripped rt (xs @ ys) = decoded_stripped rt xs @ decoded_stripped rt ys"
  by (simp add: decoded_stripped_def map_filter_def)

lemma parsed_events:
  "for_each (parse_line rt) st lines = Inr st' \<Longrightarrow> events st' = events st @ decoded rt lines"
proof (induction lines arbitrary: st)
  case Nil
  then show ?case by (simp add: decoded_def List.map_filter_simps)
next
  case (Cons l ls)
  from Cons.prems obtain st1
    where l: "parse_line rt st l = Inr st1" and rest: "for_each (parse_line rt) st1 ls = Inr st'"
    by (auto split: sum.splits)
  from Cons.IH [OF rest] parse_line_events [OF l] show ?case
    using decoded_append [of rt "[l]" ls] by simp
qed

lemma streamed_events:
  "for_each (stream_line rt on_progress) st lines = Inr st' \<Longrightarrow>
   events st' = events st @ decoded_stripped rt lines"
proof (induction lines arbitrary: st)
  case Nil
  then show ?case by (simp add: decoded_stripped_def List.map_filter_simps)
next
  case (Cons l ls)
  from Cons.prems obtain st1
    where l: "stream_line rt on_progress st l = Inr st1"
      and rest: "for_each (stream_line rt on_progress) st1 ls = Inr st'"
    by (auto split: sum.splits)
  from Cons.IH [OF rest] stream_line_events [OF l] show ?case
    using decoded_stripped_append [of rt "[l]" ls] by simp
qed

subsection \<open>The streams that are read without an exception\<close>

lemma parse_block_raises: "isl (parse_block st b) = (\<not> block_read b)"
  by (cases b) (auto simp: Let_def set_add_def split: sum.splits)

lemma stream_block_raises:
  "isl (stream_block on_progress st b) = (\<not> stream_block_read on_progress b)"
  by (cases b) (auto simp: Let_def set_add_def split: sum.splits)

lemma for_each_raises:
  assumes "\<And>st x. isl (f st x) = (\<not> ok x)"
  shows "isl (for_each f st xs) = (\<not> list_all ok xs)"
proof (induction xs arbitrary: st)
  case Nil
  then show ?case by simp
next
  case (Cons x xs)
  show ?case
  proof (cases "f st x")
    case (Inl e)
    with assms [of st x] show ?thesis by simp
  next
    case (Inr st1)
    with assms [of st x] Cons [of st1] show ?thesis by simp
  qed
qed

lemma on_result_raises:
  "isl (on_result st ev) = (\<not> is_object (dict_get ev ''usage'' (JObj [])))"
  by (cases "dict_get ev ''usage'' (JObj [])") (simp_all add: on_result_def Let_def)

lemma on_event_raises:
  assumes "\<And>st b. isl (f st b) = (\<not> ok b)"
  shows "isl (on_event f st e) = (\<not> event_read ok e)"
proof (cases e)
  case (JObj ev)
  then show ?thesis
    by (auto simp: Let_def for_each_raises [of f ok, OF assms] on_result_raises
        split: sum.splits)
qed simp_all

lemma parse_line_raises: "isl (parse_line rt st l) = (\<not> line_read rt l)"
  by (auto simp: parse_line_def line_read_def text_read_def
      on_event_raises [of parse_block block_read, OF parse_block_raises] split: sum.splits)

lemma stream_line_raises:
  "isl (stream_line rt on_progress st raw) = (\<not> stream_line_read rt on_progress raw)"
  by (auto simp: stream_line_def stream_line_read_def text_read_def Let_def
      on_event_raises [of "stream_block on_progress" "stream_block_read on_progress",
        OF stream_block_raises] split: sum.splits)

lemma join_parts_raises: "isl (join_parts ps) = (\<not> list_all is_str ps)"
  by (induction ps rule: join_parts.induct) (auto split: sum.splits)

text \<open>The loop and the joining of the texts end without an exception exactly on a stream
  that is read.\<close>

lemma parsed_and_joined:
  "(\<exists>st joined. for_each (parse_line rt) initial_state lines = Inr st
       \<and> join_parts (output_parts st) = Inr joined) = readable rt lines"
proof (cases "for_each (parse_line rt) initial_state lines")
  case (Inl e)
  with for_each_raises [of "parse_line rt" "line_read rt" initial_state lines, OF parse_line_raises]
  show ?thesis by (simp add: readable_def)
next
  case (Inr st)
  with for_each_raises [of "parse_line rt" "line_read rt" initial_state lines, OF parse_line_raises]
  have all: "list_all (line_read rt) lines" by simp
  have "output_parts st = stream_texts (decoded rt lines)"
    using parsed_agrees [OF Inr] parsed_events [OF Inr] by (simp add: agrees_def initial_state_def)
  with join_parts_raises [of "output_parts st"] all Inr show ?thesis
    by (cases "join_parts (output_parts st)") (simp_all add: readable_def)
qed

lemma streamed_and_joined:
  "(\<exists>st joined. for_each (stream_line rt on_progress) initial_state lines = Inr st
       \<and> join_parts (output_parts st) = Inr joined) = stream_readable rt on_progress lines"
proof (cases "for_each (stream_line rt on_progress) initial_state lines")
  case (Inl e)
  with for_each_raises [of "stream_line rt on_progress" "stream_line_read rt on_progress"
      initial_state lines, OF stream_line_raises]
  show ?thesis by (simp add: stream_readable_def)
next
  case (Inr st)
  with for_each_raises [of "stream_line rt on_progress" "stream_line_read rt on_progress"
      initial_state lines, OF stream_line_raises]
  have all: "list_all (stream_line_read rt on_progress) lines" by simp
  have "output_parts st = stream_texts (decoded_stripped rt lines)"
    using streamed_agrees [OF Inr] streamed_events [OF Inr]
    by (simp add: agrees_def initial_state_def)
  with join_parts_raises [of "output_parts st"] all Inr show ?thesis
    by (cases "join_parts (output_parts st)") (simp_all add: stream_readable_def)
qed

lemma parse_stream_json_raises:
  "isl (parse_stream_json rt 0 stdout stderr) =
   (\<not> readable rt (split_on CHR 0x0A (strip stdout)))"
  using parsed_and_joined [of rt "split_on CHR 0x0A (strip stdout)"]
  by (auto simp: parse_stream_json_def Let_def split: sum.splits)

lemma execute_streaming_exited_raises:
  "isl (execute_streaming rt timeout on_progress (Exited lines returncode stderr)) =
   (\<not> stream_readable rt on_progress lines)"
  using streamed_and_joined [of rt on_progress lines]
  by (auto simp: execute_streaming_def Let_def split: sum.splits)

lemma execute_streaming_stalled_raises:
  "isl (execute_streaming rt timeout on_progress (Stalled lines)) =
   (\<not> stream_readable rt on_progress lines)"
  using streamed_and_joined [of rt on_progress lines]
  by (auto simp: execute_streaming_def Let_def split: sum.splits)

text \<open>What a run returns when the process has exited and the lines were read without
  an exception.\<close>

lemma parse_stream_json_clean:
  assumes "parse_stream_json rt 0 stdout stderr = Inr r"
  shows "raw_events r = decoded rt (split_on CHR 0x0A (strip stdout))
     \<and> success r = productive (raw_events r)
     \<and> output_text r =
         (if strip (plain_text (stream_texts (raw_events r))) = [] \<and>
             stream_tools (raw_events r) \<noteq> []
          then NO_TEXT_OUTPUT else strip (plain_text (stream_texts (raw_events r))))
     \<and> tools_used r = list_of_set rt (first_seen (stream_tools (raw_events r)))
     \<and> session_id r = foldl next_session_id JNull (raw_events r)
     \<and> model r = foldl next_model JNull (raw_events r)
     \<and> error r = None"
proof -
  from assms obtain st joined
    where loop: "for_each (parse_line rt) initial_state (split_on CHR 0x0A (strip stdout)) = Inr st"
      and join: "join_parts (output_parts st) = Inr joined"
      and r: "r = final_response rt (strip joined \<noteq> [] \<or> v_tools_used st \<noteq> [])
                 (if strip joined = [] \<and> v_tools_used st \<noteq> [] then NO_TEXT_OUTPUT
                  else strip joined) st"
    by (auto simp: parse_stream_json_def Let_def split: sum.splits)
  have ev: "events st = decoded rt (split_on CHR 0x0A (strip stdout))"
    using parsed_events [OF loop] by (simp add: initial_state_def)
  have ag: "agrees st"
    using loop by (rule parsed_agrees)
  have j: "joined = plain_text (stream_texts (events st))"
    using join_parts_plain [OF join] ag by (simp add: agrees_def)
  have t: "v_tools_used st = first_seen (stream_tools (events st))"
    using ag by (simp add: agrees_def)
  have e: "(v_tools_used st = []) = (stream_tools (events st) = [])"
    unfolding t by (rule first_seen_empty)
  show ?thesis
    using ag ev e unfolding r j
    by (simp add: final_response_def productive_def agrees_def)
qed

lemma execute_streaming_exited:
  assumes "execute_streaming rt timeout on_progress (Exited lines returncode stderr) = Inr (r, sent)"
  shows "(returncode \<noteq> 0 \<and> \<not> productive (decoded_stripped rt lines) \<and> \<not> success r
          \<and> output_text r = [] \<and> raw_events r = [] \<and> tools_used r = []
          \<and> session_id r = JNull \<and> model r = JNull)
     \<or> (\<not> (returncode \<noteq> 0 \<and> \<not> productive (decoded_stripped rt lines))
          \<and> raw_events r = decoded_stripped rt lines
          \<and> success r = (returncode = 0 \<and> productive (raw_events r))
          \<and> output_text r =
              (if strip (plain_text (stream_texts (raw_events r))) = [] \<and>
                  stream_tools (raw_events r) \<noteq> []
               then NO_TEXT_OUTPUT else strip (plain_text (stream_texts (raw_events r))))
          \<and> tools_used r = list_of_set rt (first_seen (stream_tools (raw_events r)))
          \<and> session_id r = foldl next_session_id JNull (raw_events r)
          \<and> model r = foldl next_model JNull (raw_events r)
          \<and> error r = None)"
proof -
  from assms obtain st joined
    where loop: "for_each (stream_line rt on_progress) initial_state lines = Inr st"
      and join: "join_parts (output_parts st) = Inr joined"
    by (auto simp: execute_streaming_def Let_def split: sum.splits)
  have ev: "events st = decoded_stripped rt lines"
    using streamed_events [OF loop] by (simp add: initial_state_def)
  have ag: "agrees st"
    using loop by (rule streamed_agrees)
  have j: "joined = plain_text (stream_texts (events st))"
    using join_parts_plain [OF join] ag by (simp add: agrees_def)
  have t: "v_tools_used st = first_seen (stream_tools (events st))"
    using ag by (simp add: agrees_def)
  have e: "(v_tools_used st = []) = (stream_tools (events st) = [])"
    unfolding t by (rule first_seen_empty)
  have ne: "NO_TEXT_OUTPUT \<noteq> []"
    by (simp add: NO_TEXT_OUTPUT_def)
  let ?out = "strip joined"
  let ?out1 = "if ?out = [] \<and> v_tools_used st \<noteq> [] then NO_TEXT_OUTPUT else ?out"
  have run: "execute_streaming rt timeout on_progress (Exited lines returncode stderr) =
      (if returncode \<noteq> 0 \<and> ?out1 = []
       then Inr (ClaudeResponse False []
                   (Some (Message (if strip (utf8_decode rt stderr) \<noteq> []
                                   then JStr (strip (utf8_decode rt stderr))
                                   else JStr ''Unknown error''))), progress st)
       else Inr (final_response rt (returncode = 0 \<and> (?out \<noteq> [] \<or> v_tools_used st \<noteq> []))
                   ?out1 st, progress st))"
    using loop join by (simp add: execute_streaming_def Let_def)
  have p: "productive (decoded_stripped rt lines) = (?out1 \<noteq> [])"
    using ev e ne j by (simp add: productive_def)
  show ?thesis
  proof (cases "returncode \<noteq> 0 \<and> ?out1 = []")
    case True
    with run assms have "r = ClaudeResponse False []
                   (Some (Message (if strip (utf8_decode rt stderr) \<noteq> []
                                   then JStr (strip (utf8_decode rt stderr))
                                   else JStr ''Unknown error'')))"
      by simp
    with True p show ?thesis
      by (simp add: ClaudeResponse_def)
  next
    case False
    with run assms
    have r: "r = final_response rt (returncode = 0 \<and> (?out \<noteq> [] \<or> v_tools_used st \<noteq> [])) ?out1 st"
      by simp
    have fields: "raw_events r = events st" "success r = (returncode = 0 \<and> ?out1 \<noteq> [])"
      "output_text r = ?out1" "tools_used r = list_of_set rt (v_tools_used st)"
      "session_id r = v_session_id st" "model r = v_model st" "error r = None"
      unfolding r using ne by (simp_all add: final_response_def)
    from False p have np: "\<not> (returncode \<noteq> 0 \<and> \<not> productive (decoded_stripped rt lines))"
      by simp
    have out: "?out1 = (if strip (plain_text (stream_texts (raw_events r))) = [] \<and>
                  stream_tools (raw_events r) \<noteq> []
               then NO_TEXT_OUTPUT else strip (plain_text (stream_texts (raw_events r))))"
      using e j fields(1) by simp
    show ?thesis
      using np fields p ag ev out by (simp add: agrees_def)
  qed
qed

text \<open>What \<^verbatim>\<open>execute\<close> returns for a process that has exited: the result of the parsing
  when the exit code is 0 and the stream is read, and else a failure that holds nothing
  but its error.\<close>

lemma execute_clean:
  assumes "readable rt (split_on CHR 0x0A (strip stdout))"
  shows "parse_stream_json rt 0 stdout stderr = Inr (execute rt timeout (Completed 0 stdout stderr))"
proof (cases "parse_stream_json rt 0 stdout stderr")
  case (Inl e)
  with parse_stream_json_raises [of rt stdout stderr] assms show ?thesis by simp
next
  case (Inr r)
  then show ?thesis by (simp add: execute_def)
qed

lemma execute_failed:
  assumes "\<not> (returncode = 0 \<and> readable rt (split_on CHR 0x0A (strip stdout)))"
  shows "\<exists>m. execute rt timeout (Completed returncode stdout stderr) = ClaudeResponse False [] m"
proof (cases "returncode = 0")
  case True
  with assms parse_stream_json_raises [of rt stdout stderr]
  obtain e where "parse_stream_json rt 0 stdout stderr = Inl e"
    by (cases "parse_stream_json rt 0 stdout stderr") auto
  with True show ?thesis by (auto simp: execute_def)
next
  case False
  then show ?thesis
    by (auto simp: execute_def parse_stream_json_def nonzero_exit_def Let_def split: sum.splits)
qed

lemma list_of_set_empty: "(list_of_set rt s = []) = (s = [])"
  using length_sort [of "set_rank rt s" s] by (auto simp: list_of_set_def simp del: length_sort)

subsection \<open>Success\<close>

text \<open>The claim as it stands fails: a process that exits with code 0 after an event with a
  \<^verbatim>\<open>tool_use\<close> block and a line that holds the JSON text \<^verbatim>\<open>[]\<close> has used a tool, and
  \<^verbatim>\<open>execute\<close> returns a failure: the list has no method \<^verbatim>\<open>get\<close>, and \<^verbatim>\<open>execute\<close> turns
  the exception into a result.\<close>

theorem tool_seen_and_clean_exit_without_success:
  "json_loads sample_runtime READ_LINE = Inr (tool_event ''Read'')
   \<and> json_loads sample_runtime EMPTY_LIST_LINE = Inr (JArr [])
   \<and> execute sample_runtime 3600 (Completed 0 (READ_LINE @ [CHR 0x0A] @ EMPTY_LIST_LINE) []) =
       \<lparr>success = False, output_text = [], error = Some (ExecutionError AttributeError),
        session_id = JNull, cost_usd = JFloat 0 0, input_tokens = JInt 0,
        output_tokens = JInt 0, duration_ms = JInt 0, model = JNull, tools_used = [],
        raw_events = []\<rparr>
   \<and> stream_tools (decoded sample_runtime
        (split_on CHR 0x0A (strip (READ_LINE @ [CHR 0x0A] @ EMPTY_LIST_LINE)))) = [JStr ''Read'']"
  by (simp add: sync_run_defs stream_notion_defs)

text \<open>
  Claim C1, amended. When the subprocess has exited, \<open>success\<close> is true exactly when the
  exit code is zero, the stream was read without an exception, and the events of the
  stream hold a non-empty aggregated output text (the text blocks joined and stripped,
  as the result carries it) or at least one \<^verbatim>\<open>tool_use\<close> block; so a clean exit with
  neither is not a success. \<^verbatim>\<open>execute\<close> always returns a result, and reports a stream
  whose reading raises as a failure. \<^verbatim>\<open>execute_streaming\<close> returns a result exactly
  when the stream is read without an exception (else the exception leaves it), and then
  \<open>success\<close> is true exactly when the exit code is zero and the events hold a non-empty
  output text or a \<^verbatim>\<open>tool_use\<close> block. In terms of the result alone, in both
  variants, \<open>success\<close> is true exactly when the exit code is zero and \<open>output\<close> is not
  empty (a tool without text gives the placeholder text), and so exactly when the exit
  code is zero and \<open>output\<close> or \<open>toolsUsed\<close> is not empty.
\<close>

theorem success_iff_clean_exit_read_and_product:
  "success (execute rt timeout (Completed returncode stdout stderr)) =
     (returncode = 0 \<and> readable rt (split_on CHR 0x0A (strip stdout))
      \<and> productive (decoded rt (split_on CHR 0x0A (strip stdout))))
   \<and> success (execute rt timeout (Completed returncode stdout stderr)) =
       (returncode = 0 \<and> output_text (execute rt timeout (Completed returncode stdout stderr)) \<noteq> [])
   \<and> success (execute rt timeout (Completed returncode stdout stderr)) =
       (returncode = 0
        \<and> (output_text (execute rt timeout (Completed returncode stdout stderr)) \<noteq> []
           \<or> tools_used (execute rt timeout (Completed returncode stdout stderr)) \<noteq> []))
   \<and> (case execute_streaming rt timeout on_progress (Exited lines returncode stderr) of
         Inl e \<Rightarrow> \<not> stream_readable rt on_progress lines
       | Inr (r, sent) \<Rightarrow>
           stream_readable rt on_progress lines
           \<and> success r = (returncode = 0 \<and> productive (decoded_stripped rt lines))
           \<and> success r = (returncode = 0 \<and> output_text r \<noteq> [])
           \<and> success r = (returncode = 0 \<and> (output_text r \<noteq> [] \<or> tools_used r \<noteq> [])))"
proof -
  let ?run = "execute rt timeout (Completed returncode stdout stderr)"
  let ?lines = "split_on CHR 0x0A (strip stdout)"
  have ne: "NO_TEXT_OUTPUT \<noteq> []"
    by (simp add: NO_TEXT_OUTPUT_def)
  have sync: "success ?run = (returncode = 0 \<and> readable rt ?lines \<and> productive (decoded rt ?lines))
      \<and> success ?run = (returncode = 0 \<and> output_text ?run \<noteq> [])
      \<and> success ?run = (returncode = 0 \<and> (output_text ?run \<noteq> [] \<or> tools_used ?run \<noteq> []))"
  proof (cases "returncode = 0 \<and> readable rt ?lines")
    case True
    then have "parse_stream_json rt 0 stdout stderr = Inr ?run"
      using execute_clean [of rt stdout stderr timeout] by simp
    from parse_stream_json_clean [OF this] True ne show ?thesis
      by (auto simp: productive_def list_of_set_empty first_seen_empty)
  next
    case False
    from execute_failed [OF False] obtain m where "?run = ClaudeResponse False [] m" ..
    with False show ?thesis
      by (auto simp: ClaudeResponse_def)
  qed
  have streaming:
    "case execute_streaming rt timeout on_progress (Exited lines returncode stderr) of
       Inl e \<Rightarrow> \<not> stream_readable rt on_progress lines
     | Inr (r, sent) \<Rightarrow>
         stream_readable rt on_progress lines
         \<and> success r = (returncode = 0 \<and> productive (decoded_stripped rt lines))
         \<and> success r = (returncode = 0 \<and> output_text r \<noteq> [])
         \<and> success r = (returncode = 0 \<and> (output_text r \<noteq> [] \<or> tools_used r \<noteq> []))"
  proof (cases "execute_streaming rt timeout on_progress (Exited lines returncode stderr)")
    case (Inl e)
    with execute_streaming_exited_raises [of rt timeout on_progress lines returncode stderr]
    show ?thesis by simp
  next
    case (Inr res)
    obtain r sent where res: "res = (r, sent)"
      by (cases res)
    from Inr execute_streaming_exited_raises [of rt timeout on_progress lines returncode stderr]
    have read: "stream_readable rt on_progress lines" by simp
    from execute_streaming_exited [OF Inr [unfolded res]] ne
    have "success r = (returncode = 0 \<and> productive (decoded_stripped rt lines))
         \<and> success r = (returncode = 0 \<and> output_text r \<noteq> [])
         \<and> success r = (returncode = 0 \<and> (output_text r \<noteq> [] \<or> tools_used r \<noteq> []))"
      by (auto simp: productive_def list_of_set_empty first_seen_empty split: if_splits)
    with read show ?thesis
      by (simp only: Inr res sum.case prod.case) blast
  qed
  show ?thesis
    using sync streaming by blast
qed

theorem success_iff_clean_exit_read_and_product_witness:
  "execute sample_runtime 3600 (Completed 0 INIT_1_LINE []) =
     \<lparr>success = False, output_text = [], error = None, session_id = JStr ''s-1'',
      cost_usd = JFloat 0 0, input_tokens = JInt 0, output_tokens = JInt 0,
      duration_ms = JInt 0, model = JStr ''m-1'', tools_used = [],
      raw_events = [init_event ''s-1'' ''m-1'']\<rparr>
   \<and> readable sample_runtime (split_on CHR 0x0A (strip INIT_1_LINE))
   \<and> \<not> productive (decoded sample_runtime (split_on CHR 0x0A (strip INIT_1_LINE)))
   \<and> execute_streaming sample_runtime 3600 False (Exited [READ_LINE] 0 []) =
       Inr (\<lparr>success = True, output_text = NO_TEXT_OUTPUT, error = None, session_id = JNull,
             cost_usd = JFloat 0 0, input_tokens = JInt 0, output_tokens = JInt 0,
             duration_ms = JInt 0, model = JNull, tools_used = [JStr ''Read''],
             raw_events = [tool_event ''Read'']\<rparr>, [])
   \<and> stream_readable sample_runtime False [READ_LINE]
   \<and> productive (decoded_stripped sample_runtime [READ_LINE])"
proof -
  have sync: "execute sample_runtime 3600 (Completed 0 INIT_1_LINE []) =
     \<lparr>success = False, output_text = [], error = None, session_id = JStr ''s-1'',
      cost_usd = JFloat 0 0, input_tokens = JInt 0, output_tokens = JInt 0,
      duration_ms = JInt 0, model = JStr ''m-1'', tools_used = [],
      raw_events = [init_event ''s-1'' ''m-1'']\<rparr>"
    by (simp add: sync_run_defs)
  have streaming: "execute_streaming sample_runtime 3600 False (Exited [READ_LINE] 0 []) =
       Inr (\<lparr>success = True, output_text = NO_TEXT_OUTPUT, error = None, session_id = JNull,
             cost_usd = JFloat 0 0, input_tokens = JInt 0, output_tokens = JInt 0,
             duration_ms = JInt 0, model = JNull, tools_used = [JStr ''Read''],
             raw_events = [tool_event ''Read'']\<rparr>, [])"
    by (simp add: sample_stream_defs)
  have read: "readable sample_runtime (split_on CHR 0x0A (strip INIT_1_LINE))"
    by (simp add: readable_defs stream_notion_defs sample_runtime_def sample_loads_def
        sample_lines_def sample_line_defs strip_def is_space_def dict_get_def)
  note both = success_iff_clean_exit_read_and_product
    [where rt = sample_runtime and returncode = 0 and stdout = INIT_1_LINE and stderr = "[]"
       and timeout = 3600 and on_progress = False and lines = "[READ_LINE]"]
  from both [THEN conjunct1] sync read
  have idle: "\<not> productive (decoded sample_runtime (split_on CHR 0x0A (strip INIT_1_LINE)))"
    by simp
  from both [THEN conjunct2, THEN conjunct2, THEN conjunct2] streaming
  have busy: "stream_readable sample_runtime False [READ_LINE]
      \<and> productive (decoded_stripped sample_runtime [READ_LINE])"
    by simp
  show ?thesis
    using sync streaming read idle busy by simp
qed

subsection \<open>A line that does not decode\<close>

lemma undecodable_parse_line:
  "json_loads rt bad = Inl JSONDecodeError \<Longrightarrow> parse_line rt st bad = Inr st"
  by (simp add: parse_line_def)

lemma undecodable_stream_line:
  "\<not> over_limit bad \<Longrightarrow> json_loads rt (strip (utf8_decode rt bad)) = Inl JSONDecodeError \<Longrightarrow>
   stream_line rt on_progress st bad = Inr st"
  by (simp add: stream_line_def Let_def)

lemma parse_line_text_event:
  "strip l \<noteq> [] \<Longrightarrow> json_loads rt l = Inr (text_event t) \<Longrightarrow>
   parse_line rt st l =
     Inr (st\<lparr>events := events st @ [text_event t], output_parts := output_parts st @ [JStr t]\<rparr>)"
  by (simp add: parse_line_def text_event_def dict_get_def Let_def)

lemma stream_line_text_event:
  "\<not> over_limit l \<Longrightarrow> strip (utf8_decode rt l) \<noteq> [] \<Longrightarrow>
   json_loads rt (strip (utf8_decode rt l)) = Inr (text_event t) \<Longrightarrow>
   stream_line rt on_progress st l =
     Inr (st\<lparr>events := events st @ [text_event t], output_parts := output_parts st @ [JStr t]\<rparr>)"
  by (simp add: stream_line_def text_event_def dict_get_def Let_def)

lemma for_each_skips:
  assumes "\<And>st. f st x = Inr st"
  shows "for_each f st (xs @ [x] @ ys) = for_each f st (xs @ ys)"
  using assms by (induction xs arbitrary: st) (auto split: sum.splits)

lemma for_each_append:
  "for_each f st (xs @ ys) =
     (case for_each f st xs of Inl e \<Rightarrow> Inl e | Inr st1 \<Rightarrow> for_each f st1 ys)"
  by (induction xs arbitrary: st) (auto split: sum.splits)

text \<open>The claim as it stands fails: with the line \<^verbatim>\<open>MALFORMED JSON LINE\<close> between an
  event with the text \<^verbatim>\<open>" a"\<close> and one with the text \<^verbatim>\<open>"b "\<close>, the output is
  \<^verbatim>\<open>"ab"\<close>, the concatenation without its leading and trailing blanks.\<close>

theorem output_is_stripped_concatenation:
  "json_loads sample_runtime MALFORMED_LINE = Inl JSONDecodeError
   \<and> json_loads sample_runtime TEXT_A_LINE = Inr (text_event '' a'')
   \<and> json_loads sample_runtime TEXT_B_LINE = Inr (text_event ''b '')
   \<and> execute sample_runtime 3600
        (Completed 0 (TEXT_A_LINE @ [CHR 0x0A] @ MALFORMED_LINE @ [CHR 0x0A] @ TEXT_B_LINE) []) =
       \<lparr>success = True, output_text = ''ab'', error = None, session_id = JNull,
        cost_usd = JFloat 0 0, input_tokens = JInt 0, output_tokens = JInt 0,
        duration_ms = JInt 0, model = JNull, tools_used = [],
        raw_events = [text_event '' a'', text_event ''b '']\<rparr>
   \<and> ''ab'' \<noteq> '' a'' @ ''b ''"
  by (simp add: sync_run_defs)

text \<open>
  Claim C8, amended. A line that \<^verbatim>\<open>json.loads\<close> rejects with JSONDecodeError (under
  \<^verbatim>\<open>execute_streaming\<close>: such a line within the limit of the stream reader) is passed
  over: the run returns what it returns without the line, in both variants, so such a
  line never makes a run fail that succeeds without it. With one such line between two
  \<^verbatim>\<open>assistant\<close> events that each hold one text block, the run returns a result whose
  output is the concatenation of the two texts with leading and trailing white space
  stripped.
\<close>

theorem rejected_line_is_skipped:
  "(json_loads rt bad = Inl JSONDecodeError \<and>
    split_on CHR 0x0A (strip stdout) = xs @ [bad] @ ys \<and>
    split_on CHR 0x0A (strip stdout') = xs @ ys \<longrightarrow>
      parse_stream_json rt 0 stdout stderr = parse_stream_json rt 0 stdout' stderr
      \<and> execute rt timeout (Completed 0 stdout stderr) = execute rt timeout (Completed 0 stdout' stderr))
   \<and> (\<not> over_limit bad \<and> json_loads rt (strip (utf8_decode rt bad)) = Inl JSONDecodeError \<longrightarrow>
      execute_streaming rt timeout on_progress (Exited (xs @ [bad] @ ys) returncode stderr) =
      execute_streaming rt timeout on_progress (Exited (xs @ ys) returncode stderr))
   \<and> (json_loads rt bad = Inl JSONDecodeError \<and>
      split_on CHR 0x0A (strip stdout) = [l1, bad, l2] \<and>
      strip l1 \<noteq> [] \<and> strip l2 \<noteq> [] \<and>
      json_loads rt l1 = Inr (text_event t1) \<and> json_loads rt l2 = Inr (text_event t2) \<longrightarrow>
      output_text (execute rt timeout (Completed 0 stdout stderr)) = strip (t1 @ t2)
      \<and> success (execute rt timeout (Completed 0 stdout stderr)) = (strip (t1 @ t2) \<noteq> [])
      \<and> raw_events (execute rt timeout (Completed 0 stdout stderr)) = [text_event t1, text_event t2]
      \<and> error (execute rt timeout (Completed 0 stdout stderr)) = None)
   \<and> (\<not> over_limit bad \<and> json_loads rt (strip (utf8_decode rt bad)) = Inl JSONDecodeError \<and>
      \<not> over_limit l1 \<and> \<not> over_limit l2 \<and>
      strip (utf8_decode rt l1) \<noteq> [] \<and> strip (utf8_decode rt l2) \<noteq> [] \<and>
      json_loads rt (strip (utf8_decode rt l1)) = Inr (text_event t1) \<and>
      json_loads rt (strip (utf8_decode rt l2)) = Inr (text_event t2) \<longrightarrow>
      (case execute_streaming rt timeout on_progress (Exited [l1, bad, l2] 0 stderr) of
         Inl e \<Rightarrow> False
       | Inr (r, sent) \<Rightarrow>
           output_text r = strip (t1 @ t2) \<and> success r = (strip (t1 @ t2) \<noteq> [])
           \<and> raw_events r = [text_event t1, text_event t2] \<and> error r = None))"
proof -
  have sync: "parse_stream_json rt 0 stdout stderr = parse_stream_json rt 0 stdout' stderr"
    if "json_loads rt bad = Inl JSONDecodeError"
      "split_on CHR 0x0A (strip stdout) = xs @ [bad] @ ys"
      "split_on CHR 0x0A (strip stdout') = xs @ ys"
  proof -
    have "for_each (parse_line rt) initial_state (xs @ [bad] @ ys) =
          for_each (parse_line rt) initial_state (xs @ ys)"
      using that(1) by (intro for_each_skips undecodable_parse_line)
    with that(2,3) show ?thesis
      by (simp add: parse_stream_json_def)
  qed
  have streaming:
    "execute_streaming rt timeout on_progress (Exited (xs @ [bad] @ ys) returncode stderr) =
     execute_streaming rt timeout on_progress (Exited (xs @ ys) returncode stderr)"
    if "\<not> over_limit bad" "json_loads rt (strip (utf8_decode rt bad)) = Inl JSONDecodeError"
  proof -
    have "for_each (stream_line rt on_progress) initial_state (xs @ [bad] @ ys) =
          for_each (stream_line rt on_progress) initial_state (xs @ ys)"
      using that by (intro for_each_skips undecodable_stream_line)
    then show ?thesis
      by (simp add: execute_streaming_def)
  qed
  have two_sync:
    "output_text (execute rt timeout (Completed 0 stdout stderr)) = strip (t1 @ t2)
      \<and> success (execute rt timeout (Completed 0 stdout stderr)) = (strip (t1 @ t2) \<noteq> [])
      \<and> raw_events (execute rt timeout (Completed 0 stdout stderr)) = [text_event t1, text_event t2]
      \<and> error (execute rt timeout (Completed 0 stdout stderr)) = None"
    if "json_loads rt bad = Inl JSONDecodeError"
      "split_on CHR 0x0A (strip stdout) = [l1, bad, l2]"
      "strip l1 \<noteq> []" "strip l2 \<noteq> []"
      "json_loads rt l1 = Inr (text_event t1)" "json_loads rt l2 = Inr (text_event t2)"
    using that
    by (simp add: execute_def parse_stream_json_def parse_line_text_event undecodable_parse_line
        Let_def initial_state_def final_response_def)
  have two_streaming:
    "case execute_streaming rt timeout on_progress (Exited [l1, bad, l2] 0 stderr) of
       Inl e \<Rightarrow> False
     | Inr (r, sent) \<Rightarrow>
         output_text r = strip (t1 @ t2) \<and> success r = (strip (t1 @ t2) \<noteq> [])
         \<and> raw_events r = [text_event t1, text_event t2] \<and> error r = None"
    if "\<not> over_limit bad" "json_loads rt (strip (utf8_decode rt bad)) = Inl JSONDecodeError"
      "\<not> over_limit l1" "\<not> over_limit l2"
      "strip (utf8_decode rt l1) \<noteq> []" "strip (utf8_decode rt l2) \<noteq> []"
      "json_loads rt (strip (utf8_decode rt l1)) = Inr (text_event t1)"
      "json_loads rt (strip (utf8_decode rt l2)) = Inr (text_event t2)"
    using that
    by (simp add: execute_streaming_def stream_line_text_event undecodable_stream_line
        Let_def initial_state_def final_response_def)
  show ?thesis
    using sync streaming two_sync two_streaming by (simp add: execute_def)
qed

theorem rejected_line_is_skipped_witness:
  "json_loads sample_runtime MALFORMED_LINE = Inl JSONDecodeError
   \<and> \<not> over_limit MALFORMED_LINE
   \<and> json_loads sample_runtime (strip (utf8_decode sample_runtime MALFORMED_LINE)) =
       Inl JSONDecodeError
   \<and> split_on CHR 0x0A
        (strip (TEXT_A_LINE @ [CHR 0x0A] @ MALFORMED_LINE @ [CHR 0x0A] @ TEXT_B_LINE)) =
       [TEXT_A_LINE] @ [MALFORMED_LINE] @ [TEXT_B_LINE]
   \<and> split_on CHR 0x0A (strip (TEXT_A_LINE @ [CHR 0x0A] @ TEXT_B_LINE)) =
       [TEXT_A_LINE] @ [TEXT_B_LINE]
   \<and> execute sample_runtime 3600
        (Completed 0 (TEXT_A_LINE @ [CHR 0x0A] @ MALFORMED_LINE @ [CHR 0x0A] @ TEXT_B_LINE) []) =
       execute sample_runtime 3600 (Completed 0 (TEXT_A_LINE @ [CHR 0x0A] @ TEXT_B_LINE) [])
   \<and> output_text (execute sample_runtime 3600
        (Completed 0 (TEXT_A_LINE @ [CHR 0x0A] @ MALFORMED_LINE @ [CHR 0x0A] @ TEXT_B_LINE) [])) =
       strip ('' a'' @ ''b '')
   \<and> execute_streaming sample_runtime 3600 True
        (Exited ([TEXT_A_LINE] @ [MALFORMED_LINE] @ [TEXT_B_LINE]) 0 []) =
       execute_streaming sample_runtime 3600 True (Exited ([TEXT_A_LINE] @ [TEXT_B_LINE]) 0 [])
   \<and> execute_streaming sample_runtime 3600 True
        (Exited [TEXT_A_LINE, MALFORMED_LINE, TEXT_B_LINE] 0 []) =
       Inr (\<lparr>success = True, output_text = ''ab'', error = None, session_id = JNull,
             cost_usd = JFloat 0 0, input_tokens = JInt 0, output_tokens = JInt 0,
             duration_ms = JInt 0, model = JNull, tools_used = [],
             raw_events = [text_event '' a'', text_event ''b '']\<rparr>, [])
   \<and> ''ab'' = strip ('' a'' @ ''b '')"
proof -
  have bad: "json_loads sample_runtime MALFORMED_LINE = Inl JSONDecodeError"
    by (simp add: sample_runtime_def sample_loads_def sample_lines_def sample_line_defs)
  have short: "\<not> over_limit MALFORMED_LINE" "\<not> over_limit TEXT_A_LINE" "\<not> over_limit TEXT_B_LINE"
    by (rule sample_lines_within_limit)+
  have bad': "json_loads sample_runtime (strip (utf8_decode sample_runtime MALFORMED_LINE)) =
      Inl JSONDecodeError"
    by (simp add: sample_runtime_def sample_loads_def sample_lines_def sample_line_defs strip_def
        is_space_def)
  have with_bad: "split_on CHR 0x0A
        (strip (TEXT_A_LINE @ [CHR 0x0A] @ MALFORMED_LINE @ [CHR 0x0A] @ TEXT_B_LINE)) =
       [TEXT_A_LINE] @ [MALFORMED_LINE] @ [TEXT_B_LINE]"
    by (simp add: sample_line_defs strip_def is_space_def)
  have without: "split_on CHR 0x0A (strip (TEXT_A_LINE @ [CHR 0x0A] @ TEXT_B_LINE)) =
       [TEXT_A_LINE] @ [TEXT_B_LINE]"
    by (simp add: sample_line_defs strip_def is_space_def)
  have a: "json_loads sample_runtime TEXT_A_LINE = Inr (text_event '' a'')"
    by (simp add: sample_runtime_def sample_loads_def sample_lines_def sample_line_defs)
  have b: "json_loads sample_runtime TEXT_B_LINE = Inr (text_event ''b '')"
    by (simp add: sample_runtime_def sample_loads_def sample_lines_def sample_line_defs)
  have sa: "strip TEXT_A_LINE \<noteq> []" and sb: "strip TEXT_B_LINE \<noteq> []"
    by (simp_all add: sample_line_defs strip_def is_space_def)
  note skipped = rejected_line_is_skipped
    [where rt = sample_runtime and bad = MALFORMED_LINE
       and stdout = "TEXT_A_LINE @ [CHR 0x0A] @ MALFORMED_LINE @ [CHR 0x0A] @ TEXT_B_LINE"
       and stdout' = "TEXT_A_LINE @ [CHR 0x0A] @ TEXT_B_LINE"
       and xs = "[TEXT_A_LINE]" and ys = "[TEXT_B_LINE]" and stderr = "[]" and timeout = 3600
       and on_progress = True and returncode = 0
       and ?l1.0 = TEXT_A_LINE and ?l2.0 = TEXT_B_LINE and ?t1.0 = "'' a''" and ?t2.0 = "''b ''"]
  from skipped bad with_bad without
  have same: "execute sample_runtime 3600
        (Completed 0 (TEXT_A_LINE @ [CHR 0x0A] @ MALFORMED_LINE @ [CHR 0x0A] @ TEXT_B_LINE) []) =
       execute sample_runtime 3600 (Completed 0 (TEXT_A_LINE @ [CHR 0x0A] @ TEXT_B_LINE) [])"
    by blast
  from skipped bad with_bad a b sa sb
  have out: "output_text (execute sample_runtime 3600
        (Completed 0 (TEXT_A_LINE @ [CHR 0x0A] @ MALFORMED_LINE @ [CHR 0x0A] @ TEXT_B_LINE) [])) =
       strip ('' a'' @ ''b '')"
    by simp
  from skipped bad' short(1)
  have streamed: "execute_streaming sample_runtime 3600 True
        (Exited ([TEXT_A_LINE] @ [MALFORMED_LINE] @ [TEXT_B_LINE]) 0 []) =
       execute_streaming sample_runtime 3600 True (Exited ([TEXT_A_LINE] @ [TEXT_B_LINE]) 0 [])"
    by blast
  have sa': "strip (utf8_decode sample_runtime TEXT_A_LINE) \<noteq> []"
    and sb': "strip (utf8_decode sample_runtime TEXT_B_LINE) \<noteq> []"
    by (simp_all add: sample_runtime_def sample_line_defs strip_def is_space_def)
  have a': "json_loads sample_runtime (strip (utf8_decode sample_runtime TEXT_A_LINE)) =
      Inr (text_event '' a'')"
    by (simp add: sample_runtime_def sample_loads_def sample_lines_def sample_line_defs strip_def
        is_space_def)
  have b': "json_loads sample_runtime (strip (utf8_decode sample_runtime TEXT_B_LINE)) =
      Inr (text_event ''b '')"
    by (simp add: sample_runtime_def sample_loads_def sample_lines_def sample_line_defs strip_def
        is_space_def)
  have run: "execute_streaming sample_runtime 3600 True
        (Exited [TEXT_A_LINE, MALFORMED_LINE, TEXT_B_LINE] 0 []) =
       Inr (\<lparr>success = True, output_text = ''ab'', error = None, session_id = JNull,
             cost_usd = JFloat 0 0, input_tokens = JInt 0, output_tokens = JInt 0,
             duration_ms = JInt 0, model = JNull, tools_used = [],
             raw_events = [text_event '' a'', text_event ''b '']\<rparr>, [])"
    by (simp add: sample_stream_defs)
  from skipped [THEN conjunct2, THEN conjunct2, THEN conjunct2] bad' short sa' sb' a' b'
  have "case execute_streaming sample_runtime 3600 True
        (Exited [TEXT_A_LINE, MALFORMED_LINE, TEXT_B_LINE] 0 []) of
         Inl e \<Rightarrow> False
       | Inr (r, sent) \<Rightarrow>
           output_text r = strip ('' a'' @ ''b '') \<and> success r = (strip ('' a'' @ ''b '') \<noteq> [])
           \<and> raw_events r = [text_event '' a'', text_event ''b ''] \<and> error r = None"
    by blast
  then have stripped: "''ab'' = strip ('' a'' @ ''b '')"
    unfolding run by simp
  show ?thesis
    using bad short(1) bad' with_bad without same out streamed run stripped by blast
qed

text \<open>
  The loops catch JSONDecodeError only. A line on which \<^verbatim>\<open>json.loads\<close> raises another
  exception (RecursionError on \<^verbatim>\<open>'[' * 2000\<close>, ValueError on \<^verbatim>\<open>'[' + '1' * 5000\<close>) ends
  the run, and so does, under \<^verbatim>\<open>execute_streaming\<close>, a line over the limit of the
  reader, whatever it holds: \<^verbatim>\<open>execute\<close> reports a failure and \<^verbatim>\<open>execute_streaming\<close>
  raises. The repository's test of a malformed line
  (\<^verbatim>\<open>test_parse_stream_json_malformed_line\<close>) expects such a run to succeed; the amended
  claim above says nothing of these lines.
\<close>

lemma other_decoding_error_ends_the_run:
  assumes "json_loads rt bad = Inl e" and "e \<noteq> JSONDecodeError" and "strip bad \<noteq> []"
    and "split_on CHR 0x0A (strip stdout) = xs @ bad # ys"
    and "list_all (line_read rt) xs"
  shows "execute rt timeout (Completed 0 stdout stderr) =
     ClaudeResponse False [] (Some (ExecutionError e))"
proof -
  from assms(5) for_each_raises [of "parse_line rt" "line_read rt" initial_state xs,
      OF parse_line_raises]
  obtain st where "for_each (parse_line rt) initial_state xs = Inr st"
    by (cases "for_each (parse_line rt) initial_state xs") auto
  moreover from assms(1-3) have "parse_line rt st bad = Inl e"
    by (simp add: parse_line_def)
  ultimately have "for_each (parse_line rt) initial_state (xs @ bad # ys) = Inl e"
    by (simp add: for_each_append)
  with assms(4) show ?thesis
    by (simp add: execute_def parse_stream_json_def)
qed

lemma other_decoding_error_ends_the_stream:
  assumes "json_loads rt (strip (utf8_decode rt bad)) = Inl e" and "e \<noteq> JSONDecodeError"
    and "strip (utf8_decode rt bad) \<noteq> []" and "\<not> over_limit bad"
    and "list_all (stream_line_read rt on_progress) xs"
  shows "execute_streaming rt timeout on_progress (Exited (xs @ bad # ys) returncode stderr) = Inl e"
proof -
  from assms(5) for_each_raises [of "stream_line rt on_progress" "stream_line_read rt on_progress"
      initial_state xs, OF stream_line_raises]
  obtain st where "for_each (stream_line rt on_progress) initial_state xs = Inr st"
    by (cases "for_each (stream_line rt on_progress) initial_state xs") auto
  moreover from assms(1-4) have "stream_line rt on_progress st bad = Inl e"
    by (simp add: stream_line_def Let_def)
  ultimately have "for_each (stream_line rt on_progress) initial_state (xs @ bad # ys) = Inl e"
    by (simp add: for_each_append)
  then show ?thesis
    by (simp add: execute_streaming_def)
qed

lemma line_over_limit_ends_the_stream:
  assumes "over_limit bad" and "list_all (stream_line_read rt on_progress) xs"
  shows "execute_streaming rt timeout on_progress (Exited (xs @ bad # ys) returncode stderr) =
     Inl ValueError"
proof -
  from assms(2) for_each_raises [of "stream_line rt on_progress" "stream_line_read rt on_progress"
      initial_state xs, OF stream_line_raises]
  obtain st where "for_each (stream_line rt on_progress) initial_state xs = Inr st"
    by (cases "for_each (stream_line rt on_progress) initial_state xs") auto
  moreover from assms(1) have "stream_line rt on_progress st bad = Inl ValueError"
    by (simp add: stream_line_def)
  ultimately have "for_each (stream_line rt on_progress) initial_state (xs @ bad # ys) =
      Inl ValueError"
    by (simp add: for_each_append)
  then show ?thesis
    by (simp add: execute_streaming_def)
qed

subsection \<open>Timeout\<close>

text \<open>The claim as it stands fails: when the timeout expires under \<^verbatim>\<open>execute\<close> after
  the subprocess has written three events with the texts \<^verbatim>\<open>" a"\<close>, \<^verbatim>\<open>"b "\<close> and
  \<^verbatim>\<open>"c"\<close>, the output is empty.\<close>

theorem execute_timeout_drops_text:
  "json_loads sample_runtime TEXT_A_LINE = Inr (text_event '' a'')
   \<and> json_loads sample_runtime TEXT_B_LINE = Inr (text_event ''b '')
   \<and> json_loads sample_runtime TEXT_C_LINE = Inr (text_event ''c'')
   \<and> execute sample_runtime 3600
         (TimeoutExpired (TEXT_A_LINE @ [CHR 0x0A] @ TEXT_B_LINE @ [CHR 0x0A] @ TEXT_C_LINE @
                          [CHR 0x0A])) =
        \<lparr>success = False, output_text = [], error = Some (CommandTimeout 3600),
         session_id = JNull, cost_usd = JFloat 0 0, input_tokens = JInt 0,
         output_tokens = JInt 0, duration_ms = JInt 0, model = JNull, tools_used = [],
         raw_events = []\<rparr>
   \<and> [] \<noteq> '' a'' @ ''b '' @ ''c''"
  by (simp add: execute_def ClaudeResponse_def sample_runtime_def sample_loads_def sample_lines_def
      sample_line_defs)

text \<open>
  Claim C3, amended. When the timeout expires under the non-streaming \<^verbatim>\<open>execute\<close>, the
  result has \<open>success\<close> false, an error that names the timeout and an empty output,
  whatever the subprocess had written. The text accumulated before the cutoff is kept,
  stripped, by \<^verbatim>\<open>execute_streaming\<close> only: there the output is the concatenation of
  the texts of the events read before the cutoff, with \<open>success\<close> false and the same
  error.
\<close>

theorem timeout_results:
  "execute rt timeout (TimeoutExpired partial) =
     ClaudeResponse False [] (Some (CommandTimeout timeout))
   \<and> \<not> success (execute rt timeout (TimeoutExpired partial))
   \<and> output_text (execute rt timeout (TimeoutExpired partial)) = []
   \<and> error (execute rt timeout (TimeoutExpired partial)) = Some (CommandTimeout timeout)
   \<and> (execute_streaming rt timeout on_progress (Stalled lines) = Inr (r, sent) \<longrightarrow>
        \<not> success r \<and> error r = Some (CommandTimeout timeout)
        \<and> output_text r = strip (plain_text (stream_texts (decoded_stripped rt lines))))"
proof -
  have streaming: "\<not> success r \<and> error r = Some (CommandTimeout timeout)
        \<and> output_text r = strip (plain_text (stream_texts (decoded_stripped rt lines)))"
    if run: "execute_streaming rt timeout on_progress (Stalled lines) = Inr (r, sent)"
  proof -
    from run obtain st joined
      where loop: "for_each (stream_line rt on_progress) initial_state lines = Inr st"
        and join: "join_parts (output_parts st) = Inr joined"
        and r: "r = ClaudeResponse False (strip joined) (Some (CommandTimeout timeout))"
      by (auto simp: execute_streaming_def split: sum.splits)
    have "events st = decoded_stripped rt lines"
      using streamed_events [OF loop] by (simp add: initial_state_def)
    moreover have "output_parts st = stream_texts (events st)"
      using streamed_agrees [OF loop] by (simp add: agrees_def)
    ultimately have "joined = plain_text (stream_texts (decoded_stripped rt lines))"
      using join_parts_plain [OF join] by simp
    with r show ?thesis
      by (simp add: ClaudeResponse_def)
  qed
  show ?thesis
    using streaming by (simp add: execute_def ClaudeResponse_def)
qed

theorem timeout_results_witness:
  "execute_streaming sample_runtime 3600 False (Stalled [TEXT_A_LINE, TEXT_B_LINE, TEXT_C_LINE]) =
     Inr (ClaudeResponse False ''ab c'' (Some (CommandTimeout 3600)), [])
   \<and> strip (plain_text (stream_texts
        (decoded_stripped sample_runtime [TEXT_A_LINE, TEXT_B_LINE, TEXT_C_LINE]))) = ''ab c''
   \<and> output_text (execute sample_runtime 3600 (TimeoutExpired TEXT_A_LINE)) = []"
proof -
  have run: "execute_streaming sample_runtime 3600 False
      (Stalled [TEXT_A_LINE, TEXT_B_LINE, TEXT_C_LINE]) =
     Inr (ClaudeResponse False ''ab c'' (Some (CommandTimeout 3600)), [])"
    by (simp add: sample_stream_defs)
  note t = timeout_results
    [where rt = sample_runtime and timeout = 3600 and on_progress = False
       and lines = "[TEXT_A_LINE, TEXT_B_LINE, TEXT_C_LINE]" and partial = TEXT_A_LINE
       and r = "ClaudeResponse False ''ab c'' (Some (CommandTimeout 3600))" and sent = "[]"]
  from t run have "strip (plain_text (stream_texts
        (decoded_stripped sample_runtime [TEXT_A_LINE, TEXT_B_LINE, TEXT_C_LINE]))) = ''ab c''"
    by (simp add: ClaudeResponse_def)
  moreover from t have "output_text (execute sample_runtime 3600 (TimeoutExpired TEXT_A_LINE)) = []"
    by blast
  ultimately show ?thesis
    using run by simp
qed

subsection \<open>The tools used\<close>

lemma py_eq_refl: "py_eq x x"
  by (cases x) (simp_all add: py_eq_def num_eq_def)

lemma seen_add_distinct: "distinct s \<Longrightarrow> distinct (seen_add s x)"
proof (cases "list_ex (py_eq x) s")
  case True
  assume "distinct s"
  with True show ?thesis by (simp add: seen_add_def)
next
  case False
  assume d: "distinct s"
  from False have "x \<notin> set s"
    using py_eq_refl by (auto simp: list_ex_iff)
  with d False show ?thesis by (simp add: seen_add_def)
qed

lemma foldl_seen_add_distinct: "distinct s \<Longrightarrow> distinct (foldl seen_add s xs)"
  by (induction xs arbitrary: s) (simp_all add: seen_add_distinct)

lemma foldl_seen_add_subset: "set (foldl seen_add s xs) \<subseteq> set s \<union> set xs"
proof (induction xs arbitrary: s)
  case Nil
  then show ?case by simp
next
  case (Cons x xs)
  have "set (seen_add s x) \<subseteq> set s \<union> {x}"
    by (auto simp: seen_add_def)
  with Cons [of "seen_add s x"] show ?case by auto
qed

lemma foldl_seen_add_keeps: "set s \<subseteq> set (foldl seen_add s xs)"
proof (induction xs arbitrary: s)
  case Nil
  then show ?case by simp
next
  case (Cons x xs)
  have "set s \<subseteq> set (seen_add s x)"
    by (auto simp: seen_add_def)
  with Cons [of "seen_add s x"] show ?case by auto
qed

lemma foldl_seen_add_covers:
  "x \<in> set xs \<Longrightarrow> list_ex (py_eq x) (foldl seen_add s xs)"
proof (induction xs arbitrary: s)
  case Nil
  then show ?case by simp
next
  case (Cons y ys)
  show ?case
  proof (cases "x = y")
    case True
    have "list_ex (py_eq x) (seen_add s x)"
      using py_eq_refl by (auto simp: seen_add_def list_ex_iff)
    then obtain z where "z \<in> set (seen_add s x)" "py_eq x z"
      by (auto simp: list_ex_iff)
    with foldl_seen_add_keeps [of "seen_add s x" ys] True show ?thesis
      by (auto simp: list_ex_iff)
  next
    case False
    with Cons show ?thesis by simp
  qed
qed

text \<open>The list of a set holds the names seen, each once.\<close>

lemma list_of_set_names:
  "distinct (list_of_set rt (first_seen names))"
  "set (list_of_set rt (first_seen names)) \<subseteq> set names"
  "\<forall>x \<in> set names. list_ex (py_eq x) (list_of_set rt (first_seen names))"
proof -
  have d: "distinct (first_seen names)"
    unfolding first_seen_def by (rule foldl_seen_add_distinct) simp
  then show "distinct (list_of_set rt (first_seen names))"
    by (simp add: list_of_set_def)
  show "set (list_of_set rt (first_seen names)) \<subseteq> set names"
    using foldl_seen_add_subset [of "[]" names] by (simp add: list_of_set_def first_seen_def)
  have "\<forall>x \<in> set names. list_ex (py_eq x) (first_seen names)"
    unfolding first_seen_def using foldl_seen_add_covers by blast
  then show "\<forall>x \<in> set names. list_ex (py_eq x) (list_of_set rt (first_seen names))"
    by (simp add: list_of_set_def list_ex_iff)
qed

lemma execute_streaming_stalled:
  assumes "execute_streaming rt timeout on_progress (Stalled lines) = Inr (r, sent)"
  shows "tools_used r = [] \<and> model r = JNull \<and> session_id r = JNull \<and> raw_events r = []"
  using assms by (auto simp: execute_streaming_def ClaudeResponse_def split: sum.splits)

lemma result_cases:
  assumes "isl x = (\<not> P)" and "\<And>r sent. x = Inr (r, sent) \<Longrightarrow> Q r sent"
  shows "case x of Inl e \<Rightarrow> \<not> P | Inr (r, sent) \<Rightarrow> P \<and> Q r sent"
  using assms by (cases x) auto

text \<open>The claim as it stands fails: where the interpreter iterates the name \<^verbatim>\<open>Write\<close>
  before the name \<^verbatim>\<open>Read\<close>, a stream that uses \<^verbatim>\<open>Read\<close> and then \<^verbatim>\<open>Write\<close> gives the
  list \<^verbatim>\<open>Write\<close>, \<^verbatim>\<open>Read\<close>.\<close>

theorem tools_used_not_in_first_seen_order:
  "tools_used (execute write_first_runtime 3600
      (Completed 0 (READ_LINE @ [CHR 0x0A] @ WRITE_LINE) [])) = [JStr ''Write'', JStr ''Read'']
   \<and> first_seen (stream_tools (decoded write_first_runtime
        (split_on CHR 0x0A (strip (READ_LINE @ [CHR 0x0A] @ WRITE_LINE))))) =
       [JStr ''Read'', JStr ''Write'']"
  by (simp add: sync_run_defs stream_notion_defs)

text \<open>
  Claim C4, amended. The list \<open>toolsUsed\<close> of a result is the list of the set that
  collected the tool names of the \<^verbatim>\<open>tool_use\<close> blocks of the stream: every name seen,
  none else, each once, in the order in which the interpreter iterates the set. That
  order is the order in which each name was first seen where the iteration follows the
  insertion, which Python does not promise. This is so for \<^verbatim>\<open>execute\<close> when the process
  has exited with code 0 and the stream is read without an exception, and for
  \<^verbatim>\<open>execute_streaming\<close> when the process has exited (with any code) and the stream is
  read without an exception, which is when it returns a result. In every other result
  the list is empty: under \<^verbatim>\<open>execute\<close> after another exit code, an exception or the
  timeout, under \<^verbatim>\<open>execute_streaming\<close> after the timeout.
\<close>

theorem tools_used_lists_the_set_of_names_seen:
  "tools_used (execute rt timeout (Completed returncode stdout stderr)) =
     (if returncode = 0 \<and> readable rt (split_on CHR 0x0A (strip stdout))
      then list_of_set rt
             (first_seen (stream_tools (decoded rt (split_on CHR 0x0A (strip stdout)))))
      else [])
   \<and> distinct (tools_used (execute rt timeout (Completed returncode stdout stderr)))
   \<and> set (tools_used (execute rt timeout (Completed returncode stdout stderr))) \<subseteq>
       set (stream_tools (decoded rt (split_on CHR 0x0A (strip stdout))))
   \<and> (returncode = 0 \<and> readable rt (split_on CHR 0x0A (strip stdout)) \<longrightarrow>
        (\<forall>x \<in> set (stream_tools (decoded rt (split_on CHR 0x0A (strip stdout)))).
           list_ex (py_eq x) (tools_used (execute rt timeout (Completed returncode stdout stderr)))))
   \<and> tools_used (execute rt timeout (TimeoutExpired partial)) = []
   \<and> tools_used (execute rt timeout RunRaised) = []
   \<and> (case execute_streaming rt timeout on_progress (Exited lines returncode stderr) of
         Inl e \<Rightarrow> \<not> stream_readable rt on_progress lines
       | Inr (r, sent) \<Rightarrow>
           stream_readable rt on_progress lines
           \<and> (tools_used r =
                 list_of_set rt (first_seen (stream_tools (decoded_stripped rt lines)))
              \<and> distinct (tools_used r)
              \<and> set (tools_used r) \<subseteq> set (stream_tools (decoded_stripped rt lines))
              \<and> (\<forall>x \<in> set (stream_tools (decoded_stripped rt lines)).
                    list_ex (py_eq x) (tools_used r))))
   \<and> (case execute_streaming rt timeout on_progress (Stalled lines) of
         Inl e \<Rightarrow> \<not> stream_readable rt on_progress lines
       | Inr (r, sent) \<Rightarrow> stream_readable rt on_progress lines \<and> tools_used r = [])
   \<and> (sorted (map (set_rank rt (first_seen names)) (first_seen names)) \<longrightarrow>
        list_of_set rt (first_seen names) = first_seen names)"
proof -
  let ?run = "execute rt timeout (Completed returncode stdout stderr)"
  let ?lines = "split_on CHR 0x0A (strip stdout)"
  have sync: "tools_used ?run =
     (if returncode = 0 \<and> readable rt ?lines
      then list_of_set rt (first_seen (stream_tools (decoded rt ?lines))) else [])"
  proof (cases "returncode = 0 \<and> readable rt ?lines")
    case True
    then have "parse_stream_json rt 0 stdout stderr = Inr ?run"
      using execute_clean [of rt stdout stderr timeout] by simp
    from parse_stream_json_clean [OF this] True show ?thesis
      by simp
  next
    case False
    from execute_failed [OF False] obtain m where "?run = ClaudeResponse False [] m" ..
    with False show ?thesis
      by (auto simp: ClaudeResponse_def)
  qed
  note names = list_of_set_names [where rt = rt and names = "stream_tools (decoded rt ?lines)"]
  have sync_distinct: "distinct (tools_used ?run)"
    unfolding sync using names(1) by simp
  have sync_subset: "set (tools_used ?run) \<subseteq> set (stream_tools (decoded rt ?lines))"
    unfolding sync using names(2) by auto
  have sync_covers: "returncode = 0 \<and> readable rt ?lines \<longrightarrow>
      (\<forall>x \<in> set (stream_tools (decoded rt ?lines)). list_ex (py_eq x) (tools_used ?run))"
    unfolding sync using names(3) by simp
  have other: "tools_used (execute rt timeout (TimeoutExpired partial)) = []"
    "tools_used (execute rt timeout RunRaised) = []"
    by (simp_all add: execute_def ClaudeResponse_def)
  note stream_names =
    list_of_set_names [where rt = rt and names = "stream_tools (decoded_stripped rt lines)"]
  have exited:
    "case execute_streaming rt timeout on_progress (Exited lines returncode stderr) of
       Inl e \<Rightarrow> \<not> stream_readable rt on_progress lines
     | Inr (r, sent) \<Rightarrow>
         stream_readable rt on_progress lines
         \<and> (tools_used r = list_of_set rt (first_seen (stream_tools (decoded_stripped rt lines)))
            \<and> distinct (tools_used r)
            \<and> set (tools_used r) \<subseteq> set (stream_tools (decoded_stripped rt lines))
            \<and> (\<forall>x \<in> set (stream_tools (decoded_stripped rt lines)).
                  list_ex (py_eq x) (tools_used r)))"
  proof (rule result_cases)
    show "isl (execute_streaming rt timeout on_progress (Exited lines returncode stderr)) =
        (\<not> stream_readable rt on_progress lines)"
      by (rule execute_streaming_exited_raises)
  next
    fix r sent
    assume "execute_streaming rt timeout on_progress (Exited lines returncode stderr) = Inr (r, sent)"
    from execute_streaming_exited [OF this]
    have "tools_used r = list_of_set rt (first_seen (stream_tools (decoded_stripped rt lines)))"
      by (auto simp: productive_def first_seen_def list_of_set_def)
    with stream_names
    show "tools_used r = list_of_set rt (first_seen (stream_tools (decoded_stripped rt lines)))
        \<and> distinct (tools_used r)
        \<and> set (tools_used r) \<subseteq> set (stream_tools (decoded_stripped rt lines))
        \<and> (\<forall>x \<in> set (stream_tools (decoded_stripped rt lines)).
              list_ex (py_eq x) (tools_used r))"
      by simp
  qed
  have stalled:
    "case execute_streaming rt timeout on_progress (Stalled lines) of
       Inl e \<Rightarrow> \<not> stream_readable rt on_progress lines
     | Inr (r, sent) \<Rightarrow> stream_readable rt on_progress lines \<and> tools_used r = []"
  proof (rule result_cases)
    show "isl (execute_streaming rt timeout on_progress (Stalled lines)) =
        (\<not> stream_readable rt on_progress lines)"
      by (rule execute_streaming_stalled_raises)
  next
    fix r sent
    assume "execute_streaming rt timeout on_progress (Stalled lines) = Inr (r, sent)"
    from execute_streaming_stalled [OF this] show "tools_used r = []"
      by simp
  qed
  have order: "sorted (map (set_rank rt (first_seen names)) (first_seen names)) \<longrightarrow>
        list_of_set rt (first_seen names) = first_seen names"
    by (simp add: list_of_set_def sort_key_id_if_sorted)
  show ?thesis
    using sync sync_distinct sync_subset sync_covers other exited stalled order by blast
qed

theorem tools_used_lists_the_set_of_names_seen_witness:
  "execute sample_runtime 3600
     (Completed 0 (READ_LINE @ [CHR 0x0A] @ WRITE_LINE @ [CHR 0x0A] @ READ_LINE) [])
     = \<lparr>success = True, output_text = NO_TEXT_OUTPUT, error = None, session_id = JNull,
        cost_usd = JFloat 0 0, input_tokens = JInt 0, output_tokens = JInt 0,
        duration_ms = JInt 0, model = JNull, tools_used = [JStr ''Read'', JStr ''Write''],
        raw_events = [tool_event ''Read'', tool_event ''Write'', tool_event ''Read'']\<rparr>
   \<and> readable sample_runtime
       (split_on CHR 0x0A (strip (READ_LINE @ [CHR 0x0A] @ WRITE_LINE @ [CHR 0x0A] @ READ_LINE)))
   \<and> stream_tools (decoded sample_runtime
       (split_on CHR 0x0A (strip (READ_LINE @ [CHR 0x0A] @ WRITE_LINE @ [CHR 0x0A] @ READ_LINE)))) =
       [JStr ''Read'', JStr ''Write'', JStr ''Read'']
   \<and> list_of_set sample_runtime (first_seen [JStr ''Read'', JStr ''Write'', JStr ''Read'']) =
       [JStr ''Read'', JStr ''Write'']
   \<and> list_ex (py_eq (JStr ''Write'')) [JStr ''Read'', JStr ''Write'']
   \<and> execute_streaming sample_runtime 3600 False (Exited [READ_LINE, WRITE_LINE, READ_LINE] 0 [])
     = Inr (\<lparr>success = True, output_text = NO_TEXT_OUTPUT, error = None, session_id = JNull,
             cost_usd = JFloat 0 0, input_tokens = JInt 0, output_tokens = JInt 0,
             duration_ms = JInt 0, model = JNull, tools_used = [JStr ''Read'', JStr ''Write''],
             raw_events = [tool_event ''Read'', tool_event ''Write'', tool_event ''Read'']\<rparr>, [])
   \<and> stream_readable sample_runtime False [READ_LINE, WRITE_LINE, READ_LINE]
   \<and> list_of_set sample_runtime (first_seen (stream_tools (decoded_stripped sample_runtime
         [READ_LINE, WRITE_LINE, READ_LINE]))) = [JStr ''Read'', JStr ''Write'']
   \<and> sorted (map (set_rank sample_runtime (first_seen [JStr ''Read'', JStr ''Write'', JStr ''Read'']))
       (first_seen [JStr ''Read'', JStr ''Write'', JStr ''Read'']))
   \<and> list_of_set sample_runtime (first_seen [JStr ''Read'', JStr ''Write'', JStr ''Read'']) =
       first_seen [JStr ''Read'', JStr ''Write'', JStr ''Read'']"
proof -
  let ?stdout = "READ_LINE @ [CHR 0x0A] @ WRITE_LINE @ [CHR 0x0A] @ READ_LINE"
  let ?names = "[JStr ''Read'', JStr ''Write'', JStr ''Read'']"
  have sync: "execute sample_runtime 3600 (Completed 0 ?stdout [])
     = \<lparr>success = True, output_text = NO_TEXT_OUTPUT, error = None, session_id = JNull,
        cost_usd = JFloat 0 0, input_tokens = JInt 0, output_tokens = JInt 0,
        duration_ms = JInt 0, model = JNull, tools_used = [JStr ''Read'', JStr ''Write''],
        raw_events = [tool_event ''Read'', tool_event ''Write'', tool_event ''Read'']\<rparr>"
    by (simp add: sync_run_defs)
  have streaming: "execute_streaming sample_runtime 3600 False
      (Exited [READ_LINE, WRITE_LINE, READ_LINE] 0 [])
     = Inr (\<lparr>success = True, output_text = NO_TEXT_OUTPUT, error = None, session_id = JNull,
             cost_usd = JFloat 0 0, input_tokens = JInt 0, output_tokens = JInt 0,
             duration_ms = JInt 0, model = JNull, tools_used = [JStr ''Read'', JStr ''Write''],
             raw_events = [tool_event ''Read'', tool_event ''Write'', tool_event ''Read'']\<rparr>, [])"
    by (simp add: sample_stream_defs)
  have read: "readable sample_runtime (split_on CHR 0x0A (strip ?stdout))"
    by (simp add: readable_defs stream_notion_defs sample_runtime_def sample_loads_def
        sample_lines_def sample_line_defs strip_def is_space_def dict_get_def)
  have seen: "stream_tools (decoded sample_runtime (split_on CHR 0x0A (strip ?stdout))) = ?names"
    by (simp add: stream_notion_defs sample_runtime_def sample_loads_def sample_lines_def
        sample_line_defs strip_def is_space_def dict_get_def)
  have rank: "sorted (map (set_rank sample_runtime (first_seen ?names)) (first_seen ?names))"
    by (simp add: sample_runtime_def first_seen_def seen_add_def py_eq_def)
  note t = tools_used_lists_the_set_of_names_seen
    [where rt = sample_runtime and timeout = 3600 and on_progress = False and returncode = 0
       and lines = "[READ_LINE, WRITE_LINE, READ_LINE]" and stderr = "[]"
       and stdout = ?stdout and names = ?names]
  from t [THEN conjunct1] sync read seen
  have order: "list_of_set sample_runtime (first_seen ?names) = [JStr ''Read'', JStr ''Write'']"
    by simp
  from t [THEN conjunct2, THEN conjunct2, THEN conjunct2, THEN conjunct1] read seen sync
  have covered: "list_ex (py_eq (JStr ''Write'')) [JStr ''Read'', JStr ''Write'']"
    by simp
  from t [THEN conjunct2, THEN conjunct2, THEN conjunct2, THEN conjunct2, THEN conjunct2,
      THEN conjunct2, THEN conjunct1] streaming
  have streamed: "stream_readable sample_runtime False [READ_LINE, WRITE_LINE, READ_LINE]
     \<and> list_of_set sample_runtime (first_seen (stream_tools (decoded_stripped sample_runtime
         [READ_LINE, WRITE_LINE, READ_LINE]))) = [JStr ''Read'', JStr ''Write'']"
    by simp
  from t rank have same: "list_of_set sample_runtime (first_seen ?names) = first_seen ?names"
    by blast
  show ?thesis
    using sync read seen order covered streaming streamed rank same by blast
qed

subsection \<open>The session identifier and the model\<close>

lemma next_model_past_init:
  "is_init e \<Longrightarrow> list_all (\<lambda>x. \<not> is_init x) post \<Longrightarrow>
   foldl next_model c (pre @ e # post) = field ''model'' e"
proof (induction post rule: rev_induct)
  case Nil
  then show ?case by (simp add: next_model_def)
next
  case (snoc x xs)
  then show ?case by (simp add: next_model_def)
qed

lemma next_session_id_past_init:
  "is_init e \<Longrightarrow> truthy (field ''session_id'' e) \<Longrightarrow> list_all (\<lambda>x. \<not> is_init x) post \<Longrightarrow>
   foldl next_session_id c (pre @ e # post) = field ''session_id'' e"
proof (induction post rule: rev_induct)
  case Nil
  then show ?case by (simp add: next_session_id_def)
next
  case (snoc x xs)
  then show ?case by (simp add: next_session_id_def)
qed

text \<open>The claim as it stands fails: of two \<^verbatim>\<open>system/init\<close> events, the first with the
  session \<^verbatim>\<open>s-1\<close> and the model \<^verbatim>\<open>m-1\<close>, the second with \<^verbatim>\<open>s-2\<close> and \<^verbatim>\<open>m-2\<close>, the
  result records the second.\<close>

theorem second_init_event_wins:
  "json_loads sample_runtime INIT_1_LINE = Inr (init_event ''s-1'' ''m-1'')
   \<and> json_loads sample_runtime INIT_2_LINE = Inr (init_event ''s-2'' ''m-2'')
   \<and> execute sample_runtime 3600
        (Completed 0 (INIT_1_LINE @ [CHR 0x0A] @ INIT_2_LINE @ [CHR 0x0A] @ TEXT_C_LINE) []) =
       \<lparr>success = True, output_text = ''c'', error = None, session_id = JStr ''s-2'',
        cost_usd = JFloat 0 0, input_tokens = JInt 0, output_tokens = JInt 0,
        duration_ms = JInt 0, model = JStr ''m-2'', tools_used = [],
        raw_events = [init_event ''s-1'' ''m-1'', init_event ''s-2'' ''m-2'', text_event ''c'']\<rparr>
   \<and> execute_streaming sample_runtime 3600 False
        (Exited [INIT_1_LINE, INIT_2_LINE, TEXT_C_LINE] 0 []) =
       Inr (\<lparr>success = True, output_text = ''c'', error = None, session_id = JStr ''s-2'',
             cost_usd = JFloat 0 0, input_tokens = JInt 0, output_tokens = JInt 0,
             duration_ms = JInt 0, model = JStr ''m-2'', tools_used = [],
             raw_events = [init_event ''s-1'' ''m-1'', init_event ''s-2'' ''m-2'',
                           text_event ''c'']\<rparr>, [])"
  by (simp add: sync_run_defs sample_stream_defs)

text \<open>
  Claim C5, amended. If the event stream contains more than one \<^verbatim>\<open>system/init\<close> event,
  the model recorded in the result is the one carried by the last such event, and so is
  the session identifier when that event carries a non-empty one: the last occurrence
  wins. This is so in every result that records them: under \<^verbatim>\<open>execute\<close>, when the
  process has exited with code 0 and the stream is read without an exception; under
  \<^verbatim>\<open>execute_streaming\<close>, when the process has exited and the stream is read without an
  exception (which is when a result is returned), unless the exit code is not 0 and the
  stream holds neither an output text nor a tool. Every other result records no model
  and no session identifier: under \<^verbatim>\<open>execute\<close> after another exit code, an exception
  or the timeout; under \<^verbatim>\<open>execute_streaming\<close> after the timeout, and after an exit code
  other than 0 with neither text nor tool.
\<close>

theorem last_init_event_wins_where_recorded:
  "(decoded rt (split_on CHR 0x0A (strip stdout)) = pre @ e # post \<and>
    is_init e \<and> list_all (\<lambda>x. \<not> is_init x) post \<longrightarrow>
      model (execute rt timeout (Completed returncode stdout stderr)) =
        (if returncode = 0 \<and> readable rt (split_on CHR 0x0A (strip stdout))
         then field ''model'' e else JNull)
      \<and> (truthy (field ''session_id'' e) \<longrightarrow>
          session_id (execute rt timeout (Completed returncode stdout stderr)) =
            (if returncode = 0 \<and> readable rt (split_on CHR 0x0A (strip stdout))
             then field ''session_id'' e else JNull)))
   \<and> model (execute rt timeout (TimeoutExpired partial)) = JNull
   \<and> session_id (execute rt timeout (TimeoutExpired partial)) = JNull
   \<and> model (execute rt timeout RunRaised) = JNull
   \<and> session_id (execute rt timeout RunRaised) = JNull
   \<and> (decoded_stripped rt lines = pre' @ e' # post' \<and>
      is_init e' \<and> list_all (\<lambda>x. \<not> is_init x) post' \<longrightarrow>
        (case execute_streaming rt timeout on_progress (Exited lines returncode stderr) of
           Inl raised \<Rightarrow> \<not> stream_readable rt on_progress lines
         | Inr (r, sent) \<Rightarrow>
             stream_readable rt on_progress lines
             \<and> (model r =
                   (if returncode \<noteq> 0 \<and> \<not> productive (decoded_stripped rt lines) then JNull
                    else field ''model'' e')
                \<and> (truthy (field ''session_id'' e') \<longrightarrow>
                     session_id r =
                       (if returncode \<noteq> 0 \<and> \<not> productive (decoded_stripped rt lines) then JNull
                        else field ''session_id'' e')))))
   \<and> (case execute_streaming rt timeout on_progress (Stalled lines) of
         Inl raised \<Rightarrow> \<not> stream_readable rt on_progress lines
       | Inr (r, sent) \<Rightarrow>
           stream_readable rt on_progress lines \<and> (model r = JNull \<and> session_id r = JNull))"
proof -
  let ?run = "execute rt timeout (Completed returncode stdout stderr)"
  let ?lines = "split_on CHR 0x0A (strip stdout)"
  have sync: "model ?run = (if returncode = 0 \<and> readable rt ?lines then field ''model'' e else JNull)
      \<and> (truthy (field ''session_id'' e) \<longrightarrow>
          session_id ?run =
            (if returncode = 0 \<and> readable rt ?lines then field ''session_id'' e else JNull))"
    if split: "decoded rt ?lines = pre @ e # post"
      and init: "is_init e" and last: "list_all (\<lambda>x. \<not> is_init x) post"
  proof (cases "returncode = 0 \<and> readable rt ?lines")
    case True
    then have "parse_stream_json rt 0 stdout stderr = Inr ?run"
      using execute_clean [of rt stdout stderr timeout] by simp
    from parse_stream_json_clean [OF this] True split
      next_model_past_init [OF init last, of JNull pre]
      next_session_id_past_init [OF init _ last, of JNull pre]
    show ?thesis
      by simp
  next
    case False
    from execute_failed [OF False] obtain m where "?run = ClaudeResponse False [] m" ..
    with False show ?thesis
      by (auto simp: ClaudeResponse_def)
  qed
  have other: "model (execute rt timeout (TimeoutExpired partial)) = JNull"
    "session_id (execute rt timeout (TimeoutExpired partial)) = JNull"
    "model (execute rt timeout RunRaised) = JNull"
    "session_id (execute rt timeout RunRaised) = JNull"
    by (simp_all add: execute_def ClaudeResponse_def)
  have exited:
    "case execute_streaming rt timeout on_progress (Exited lines returncode stderr) of
       Inl raised \<Rightarrow> \<not> stream_readable rt on_progress lines
     | Inr (r, sent) \<Rightarrow>
         stream_readable rt on_progress lines
         \<and> (model r =
               (if returncode \<noteq> 0 \<and> \<not> productive (decoded_stripped rt lines) then JNull
                else field ''model'' e')
            \<and> (truthy (field ''session_id'' e') \<longrightarrow>
                 session_id r =
                   (if returncode \<noteq> 0 \<and> \<not> productive (decoded_stripped rt lines) then JNull
                    else field ''session_id'' e')))"
    if split: "decoded_stripped rt lines = pre' @ e' # post'"
      and init: "is_init e'" and last: "list_all (\<lambda>x. \<not> is_init x) post'"
  proof (rule result_cases)
    show "isl (execute_streaming rt timeout on_progress (Exited lines returncode stderr)) =
        (\<not> stream_readable rt on_progress lines)"
      by (rule execute_streaming_exited_raises)
  next
    fix r sent
    assume "execute_streaming rt timeout on_progress (Exited lines returncode stderr) = Inr (r, sent)"
    from execute_streaming_exited [OF this] split
      next_model_past_init [OF init last, of JNull pre']
      next_session_id_past_init [OF init _ last, of JNull pre']
    show "model r =
               (if returncode \<noteq> 0 \<and> \<not> productive (decoded_stripped rt lines) then JNull
                else field ''model'' e')
            \<and> (truthy (field ''session_id'' e') \<longrightarrow>
                 session_id r =
                   (if returncode \<noteq> 0 \<and> \<not> productive (decoded_stripped rt lines) then JNull
                    else field ''session_id'' e'))"
      by auto
  qed
  have stalled:
    "case execute_streaming rt timeout on_progress (Stalled lines) of
       Inl raised \<Rightarrow> \<not> stream_readable rt on_progress lines
     | Inr (r, sent) \<Rightarrow>
         stream_readable rt on_progress lines \<and> (model r = JNull \<and> session_id r = JNull)"
  proof (rule result_cases)
    show "isl (execute_streaming rt timeout on_progress (Stalled lines)) =
        (\<not> stream_readable rt on_progress lines)"
      by (rule execute_streaming_stalled_raises)
  next
    fix r sent
    assume "execute_streaming rt timeout on_progress (Stalled lines) = Inr (r, sent)"
    from execute_streaming_stalled [OF this] show "model r = JNull \<and> session_id r = JNull"
      by simp
  qed
  show ?thesis
    using sync other exited stalled by blast
qed

theorem last_init_event_wins_where_recorded_witness:
  "decoded sample_runtime
      (split_on CHR 0x0A (strip (INIT_1_LINE @ [CHR 0x0A] @ INIT_2_LINE @ [CHR 0x0A] @ TEXT_C_LINE))) =
     [init_event ''s-1'' ''m-1''] @ init_event ''s-2'' ''m-2'' # [text_event ''c'']
   \<and> decoded_stripped sample_runtime [INIT_1_LINE, INIT_2_LINE, TEXT_C_LINE] =
       [init_event ''s-1'' ''m-1''] @ init_event ''s-2'' ''m-2'' # [text_event ''c'']
   \<and> is_init (init_event ''s-2'' ''m-2'')
   \<and> list_all (\<lambda>x. \<not> is_init x) [text_event ''c'']
   \<and> truthy (field ''session_id'' (init_event ''s-2'' ''m-2''))
   \<and> readable sample_runtime
       (split_on CHR 0x0A (strip (INIT_1_LINE @ [CHR 0x0A] @ INIT_2_LINE @ [CHR 0x0A] @ TEXT_C_LINE)))
   \<and> model (execute sample_runtime 3600
        (Completed 0 (INIT_1_LINE @ [CHR 0x0A] @ INIT_2_LINE @ [CHR 0x0A] @ TEXT_C_LINE) [])) =
       JStr ''m-2''
   \<and> session_id (execute sample_runtime 3600
        (Completed 0 (INIT_1_LINE @ [CHR 0x0A] @ INIT_2_LINE @ [CHR 0x0A] @ TEXT_C_LINE) [])) =
       JStr ''s-2''
   \<and> model (execute sample_runtime 3600
        (Completed 1 (INIT_1_LINE @ [CHR 0x0A] @ INIT_2_LINE @ [CHR 0x0A] @ TEXT_C_LINE) [])) =
       JNull
   \<and> execute_streaming sample_runtime 3600 False
        (Exited [INIT_1_LINE, INIT_2_LINE, TEXT_C_LINE] 0 []) =
       Inr (\<lparr>success = True, output_text = ''c'', error = None, session_id = JStr ''s-2'',
             cost_usd = JFloat 0 0, input_tokens = JInt 0, output_tokens = JInt 0,
             duration_ms = JInt 0, model = JStr ''m-2'', tools_used = [],
             raw_events = [init_event ''s-1'' ''m-1'', init_event ''s-2'' ''m-2'',
                           text_event ''c'']\<rparr>, [])
   \<and> stream_readable sample_runtime False [INIT_1_LINE, INIT_2_LINE, TEXT_C_LINE]
   \<and> field ''model'' (init_event ''s-2'' ''m-2'') = JStr ''m-2''
   \<and> field ''session_id'' (init_event ''s-2'' ''m-2'') = JStr ''s-2''"
proof -
  let ?stdout = "INIT_1_LINE @ [CHR 0x0A] @ INIT_2_LINE @ [CHR 0x0A] @ TEXT_C_LINE"
  let ?r = "\<lparr>success = True, output_text = ''c'', error = None, session_id = JStr ''s-2'',
          cost_usd = JFloat 0 0, input_tokens = JInt 0, output_tokens = JInt 0,
          duration_ms = JInt 0, model = JStr ''m-2'', tools_used = [],
          raw_events = [init_event ''s-1'' ''m-1'', init_event ''s-2'' ''m-2'', text_event ''c'']\<rparr>"
  have streaming: "execute_streaming sample_runtime 3600 False
        (Exited [INIT_1_LINE, INIT_2_LINE, TEXT_C_LINE] 0 []) = Inr (?r, [])"
    by (simp add: sample_stream_defs)
  have d: "decoded sample_runtime (split_on CHR 0x0A (strip ?stdout)) =
       [init_event ''s-1'' ''m-1''] @ init_event ''s-2'' ''m-2'' # [text_event ''c'']"
    by (simp add: stream_notion_defs sample_runtime_def sample_loads_def sample_lines_def
        sample_line_defs strip_def is_space_def)
  have ds: "decoded_stripped sample_runtime [INIT_1_LINE, INIT_2_LINE, TEXT_C_LINE] =
       [init_event ''s-1'' ''m-1''] @ init_event ''s-2'' ''m-2'' # [text_event ''c'']"
    by (simp add: stream_notion_defs sample_runtime_def sample_loads_def sample_lines_def
        sample_line_defs strip_def is_space_def)
  have i: "is_init (init_event ''s-2'' ''m-2'')"
    by (simp add: init_event_def dict_get_def)
  have p: "list_all (\<lambda>x. \<not> is_init x) [text_event ''c'']"
    by (simp add: text_event_def dict_get_def)
  have t: "truthy (field ''session_id'' (init_event ''s-2'' ''m-2''))"
    by (simp add: init_event_def dict_get_def)
  have f: "field ''model'' (init_event ''s-2'' ''m-2'') = JStr ''m-2''"
    "field ''session_id'' (init_event ''s-2'' ''m-2'') = JStr ''s-2''"
    by (simp_all add: init_event_def dict_get_def)
  have read: "readable sample_runtime (split_on CHR 0x0A (strip ?stdout))"
    by (simp add: readable_defs stream_notion_defs sample_runtime_def sample_loads_def
        sample_lines_def sample_line_defs strip_def is_space_def dict_get_def)
  note w = last_init_event_wins_where_recorded
    [where rt = sample_runtime and timeout = 3600 and on_progress = False
       and stdout = ?stdout and stderr = "[]" and lines = "[INIT_1_LINE, INIT_2_LINE, TEXT_C_LINE]"
       and pre = "[init_event ''s-1'' ''m-1'']" and e = "init_event ''s-2'' ''m-2''"
       and post = "[text_event ''c'']" and pre' = "[init_event ''s-1'' ''m-1'']"
       and e' = "init_event ''s-2'' ''m-2''" and post' = "[text_event ''c'']"]
  from w [where returncode = 0, THEN conjunct1] d i p t read f
  have clean: "model (execute sample_runtime 3600 (Completed 0 ?stdout [])) = JStr ''m-2''
      \<and> session_id (execute sample_runtime 3600 (Completed 0 ?stdout [])) = JStr ''s-2''"
    by simp
  from w [where returncode = 1, THEN conjunct1] d i p
  have failed: "model (execute sample_runtime 3600 (Completed 1 ?stdout [])) = JNull"
    by simp
  from w [where returncode = 0, THEN conjunct2, THEN conjunct2, THEN conjunct2, THEN conjunct2,
      THEN conjunct2, THEN conjunct1] ds i p streaming
  have streamed: "stream_readable sample_runtime False [INIT_1_LINE, INIT_2_LINE, TEXT_C_LINE]"
    by simp
  show ?thesis
    using d ds i p t read clean failed streaming streamed f by blast
qed

section \<open>Properties of the session store\<close>

subsection \<open>Clearing a session\<close>

text \<open>
  Claim C10. Clearing a session, by the \<^verbatim>\<open>/clear\<close> command when no change is pending
  or by the confirm button, stores \<^verbatim>\<open>None\<close> as the session identifier, 0 as the turn
  count and \<^verbatim>\<open>None\<close> as the pending change, and changes no other key of the user's
  data: the approval history, the linked repository and its path stay as they were.
\<close>

theorem clear_sets_three_keys_only:
  "(let ud' = ud\<lparr>claude_session_id := Some JNull, turn_count := Some 0,
                  pending_change := None\<rparr>
    in (authorized \<and> \<not> is_pending ud \<longrightarrow> handle_clear authorized ud = (SessionCleared, ud'))
       \<and> handle_clear_callback (Some ''confirm'') ud = (SessionCleared, ud')
       \<and> claude_session_id ud' = Some JNull \<and> turn_count ud' = Some 0
       \<and> pending_change ud' = None
       \<and> approval_history ud' = approval_history ud
       \<and> github_repo ud' = github_repo ud \<and> repo_path ud' = repo_path ud
       \<and> last_active ud' = last_active ud \<and> workspace_path ud' = workspace_path ud
       \<and> last_transcription ud' = last_transcription ud
       \<and> user_preferences ud' = user_preferences ud \<and> last_prompt ud' = last_prompt ud)"
  by (simp add: handle_clear_def handle_clear_callback_def)

theorem clear_sets_three_keys_only_witness:
  "\<not> is_pending linked_user_data
   \<and> handle_clear True linked_user_data =
       (SessionCleared,
        linked_user_data\<lparr>claude_session_id := Some JNull, turn_count := Some 0,
                          pending_change := None\<rparr>)
   \<and> approval_history (snd (handle_clear True linked_user_data)) =
       approval_history linked_user_data
   \<and> github_repo (snd (handle_clear True linked_user_data)) = Some ''octo/demo''
   \<and> repo_path (snd (handle_clear True linked_user_data)) = Some ''/workspace/demo''
   \<and> turn_count (snd (handle_clear True linked_user_data)) = Some 0"
  using clear_sets_three_keys_only [of linked_user_data True]
  by (simp add: Let_def is_pending_def linked_user_data_def)

subsection \<open>Deciding a change\<close>

lemma approve_without_pending:
  "\<not> is_pending ud \<Longrightarrow> approve git now1 now2 ud = (NoPendingChanges, [], ud)"
  by (auto simp: approve_def is_pending_def split: option.splits)

lemma reject_without_pending:
  "\<not> is_pending ud \<Longrightarrow> reject git now1 now2 ud = (NoPendingChanges, [], ud)"
  by (auto simp: reject_def is_pending_def split: option.splits)

lemma approve_clears_pending:
  "is_pending ud \<Longrightarrow> pending_change (snd (snd (approve git now1 now2 ud))) = None"
  by (auto simp: approve_def is_pending_def Let_def split_def split: option.splits)

lemma reject_clears_pending:
  "is_pending ud \<Longrightarrow> pending_change (snd (snd (reject git now1 now2 ud))) = None"
  by (auto simp: reject_def is_pending_def Let_def split: option.splits)

lemma approve_commits_at_most_once:
  "length (filter is_commit (fst (snd (approve git now1 now2 ud)))) \<le> 1"
  by (simp add: approve_def is_commit_def Let_def split_def split: option.splits)

lemma reject_calls_nothing: "fst (snd (reject git now1 now2 ud)) = []"
  by (simp add: reject_def Let_def split: option.splits)

lemma not_pending_without_change: "pending_change ud = None \<Longrightarrow> \<not> is_pending ud"
  by (simp add: is_pending_def)

text \<open>
  Claim C2. A user holds a pending change and presses approve or reject; the callback
  processes it. Whatever is pressed next, approve or reject, the callback reports that
  no change is pending, calls nothing in the repository and leaves the user's data as
  the first press left them: over both presses at most one commit is made, and the
  history is the one the first press wrote, with its single new entry.
\<close>

theorem second_decision_changes_nothing:
  assumes "is_pending ud"
    and "a1 = ''approve'' \<or> a1 = ''reject''"
    and "a2 = ''approve'' \<or> a2 = ''reject''"
  shows "(case handle_action_callback git1 t1 t2 (Some a1) ud of
            (answer1, calls1, ud1) \<Rightarrow>
              handle_action_callback git2 t3 t4 (Some a2) ud1 = (NoPendingChanges, [], ud1)
              \<and> length (filter is_commit
                    (calls1 @ fst (snd (handle_action_callback git2 t3 t4 (Some a2) ud1)))) \<le> 1
              \<and> history ud1 =
                  (let h = history ud @ decision_of ud (ActionCallback git1 t1 t2 (Some a1))
                   in drop (length h - 20) h)
              \<and> length (decision_of ud (ActionCallback git1 t1 t2 (Some a1))) = 1)"
proof -
  obtain answer1 calls1 ud1
    where first: "handle_action_callback git1 t1 t2 (Some a1) ud = (answer1, calls1, ud1)"
    by (cases "handle_action_callback git1 t1 t2 (Some a1) ud") auto
  have cleared: "pending_change ud1 = None"
    using assms(1,2) first approve_clears_pending [of ud git1 t1 t2]
      reject_clears_pending [of ud git1 t1 t2]
    by (auto simp: handle_action_callback_def)
  then have idle: "\<not> is_pending ud1"
    by (rule not_pending_without_change)
  have second: "handle_action_callback git2 t3 t4 (Some a2) ud1 = (NoPendingChanges, [], ud1)"
    using assms(3) idle
    by (auto simp: handle_action_callback_def approve_without_pending reject_without_pending)
  have once: "length (filter is_commit calls1) \<le> 1"
    using assms(2) first approve_commits_at_most_once [of git1 t1 t2 ud]
      reject_calls_nothing [of git1 t1 t2 ud]
    by (auto simp: handle_action_callback_def)
  have hist: "history ud1 =
      (let h = history ud @ decision_of ud (ActionCallback git1 t1 t2 (Some a1))
       in drop (length h - 20) h)"
    using assms(1,2) first
    by (auto simp: handle_action_callback_def approve_def reject_def is_pending_def
        decision_of_def history_def append_history_def Let_def split_def
        split: option.splits if_splits)
  have one: "length (decision_of ud (ActionCallback git1 t1 t2 (Some a1))) = 1"
    using assms(1,2) by (auto simp: decision_of_def is_pending_def split: option.splits)
  show ?thesis
    using first second once hist one by simp
qed

theorem second_decision_changes_nothing_witness:
  "is_pending (linked_user_data\<lparr>pending_change := Some tested_change\<rparr>)
   \<and> (case handle_action_callback dirty_repo ''t1'' ''t2'' (Some ''approve'')
             (linked_user_data\<lparr>pending_change := Some tested_change\<rparr>) of
         (answer1, calls1, ud1) \<Rightarrow>
           answer1 = ApprovedAndCommitted ''abc1234'' ''Apply changes from Claude''
           \<and> length (filter is_commit calls1) = 1
           \<and> length (history ud1) = 2
           \<and> handle_action_callback dirty_repo ''t3'' ''t4'' (Some ''reject'') ud1 =
               (NoPendingChanges, [], ud1))"
proof -
  have p: "is_pending (linked_user_data\<lparr>pending_change := Some tested_change\<rparr>)"
    by (simp add: is_pending_def tested_change_def CHANGE_STATE_PENDING_def)
  have first: "handle_action_callback dirty_repo ''t1'' ''t2'' (Some ''approve'')
      (linked_user_data\<lparr>pending_change := Some tested_change\<rparr>) =
      (ApprovedAndCommitted ''abc1234'' ''Apply changes from Claude'',
       [AddFiles, Commit (commit_message tested_change)],
       linked_user_data\<lparr>pending_change := None,
         approval_history := Some
           [\<lparr>change_id = ''change_1_1'', he_state = ''approved'',
             he_timestamp = ''2026-01-05T09:00:00'', he_prompt = ''add tests''\<rparr>,
            \<lparr>change_id = ''change_12345_1700000000'', he_state = ''approved'',
             he_timestamp = ''t2'', he_prompt = ''add tests''\<rparr>]\<rparr>)"
    by (simp add: handle_action_callback_def approve_def append_history_def commit_message_def
        dirty_repo_def tested_change_def linked_user_data_def CHANGE_STATE_PENDING_def
        CHANGE_STATE_APPROVED_def Let_def)
  note both = second_decision_changes_nothing
      [OF p, where ?a1.0 = "''approve''" and ?a2.0 = "''reject''" and ?git1.0 = dirty_repo
        and ?t1.0 = "''t1''" and ?t2.0 = "''t2''" and ?git2.0 = dirty_repo
        and ?t3.0 = "''t3''" and ?t4.0 = "''t4''"]
  have second: "handle_action_callback dirty_repo ''t3'' ''t4'' (Some ''reject'')
      (snd (snd (handle_action_callback dirty_repo ''t1'' ''t2'' (Some ''approve'')
         (linked_user_data\<lparr>pending_change := Some tested_change\<rparr>)))) =
      (NoPendingChanges, [],
       snd (snd (handle_action_callback dirty_repo ''t1'' ''t2'' (Some ''approve'')
         (linked_user_data\<lparr>pending_change := Some tested_change\<rparr>))))"
    using both by (simp add: split_def)
  show ?thesis
    using second by (simp add: p first is_commit_def history_def)
qed

subsection \<open>The approval history\<close>

lemma handle_text_keeps_history:
  "approval_history (snd (handle_text authorized user_id txt now1 now2 now3 ts run ud)) =
   approval_history ud"
  by (simp add: handle_text_def get_or_create_session_id_def increment_turn_count_def
      initialize_user_data_def update_with_schema_def Let_def split_def
      split: sum.splits)

lemma approve_history:
  "length (history ud) \<le> 20 \<Longrightarrow>
   history (snd (snd (approve git now1 now2 ud))) =
   drop (length (history ud @ decision_of ud (ActionCallback git now1 now2 (Some ''approve''))) - 20)
     (history ud @ decision_of ud (ActionCallback git now1 now2 (Some ''approve'')))"
  by (simp add: approve_def decision_of_def history_def append_history_def Let_def split_def
      split: option.splits)

lemma reject_history:
  "length (history ud) \<le> 20 \<Longrightarrow>
   history (snd (snd (reject git now1 now2 ud))) =
   drop (length (history ud @ decision_of ud (ActionCallback git now1 now2 (Some ''reject''))) - 20)
     (history ud @ decision_of ud (ActionCallback git now1 now2 (Some ''reject'')))"
  by (simp add: reject_def decision_of_def history_def append_history_def Let_def
      split: option.splits)

lemma other_action_no_decision:
  "action \<noteq> Some ''approve'' \<Longrightarrow> action \<noteq> Some ''reject'' \<Longrightarrow>
   decision_of ud (ActionCallback git now1 now2 action) = []"
  by (simp add: decision_of_def split: option.splits)

lemma other_action_keeps_data:
  "action \<noteq> Some ''approve'' \<Longrightarrow> action \<noteq> Some ''reject'' \<Longrightarrow>
   snd (snd (handle_action_callback git now1 now2 action ud)) = ud"
  by (simp add: handle_action_callback_def Let_def split: option.splits)

lemma handle_history_short:
  assumes "length (history ud) \<le> 20"
  shows "history (handle ud ev) =
         drop (length (history ud @ decision_of ud ev) - 20) (history ud @ decision_of ud ev)"
proof (cases ev)
  case (TextMessage authorized user_id body now1 now2 now3 ts run)
  then show ?thesis
    using assms by (simp add: history_def handle_text_keeps_history decision_of_def)
next
  case (ActionCallback git now1 now2 action)
  show ?thesis
  proof (cases "action = Some ''approve''")
    case True
    with ActionCallback show ?thesis
      using approve_history [OF assms, of git now1 now2]
      by (simp add: handle_action_callback_def)
  next
    case False
    note not_approve = this
    show ?thesis
    proof (cases "action = Some ''reject''")
      case True
      with ActionCallback show ?thesis
        using reject_history [OF assms, of git now1 now2]
        by (simp add: handle_action_callback_def)
    next
      case False
      with ActionCallback not_approve show ?thesis
        using assms by (simp add: other_action_no_decision other_action_keeps_data)
    qed
  qed
next
  case (ClearCommand authorized)
  then show ?thesis
    using assms by (simp add: history_def handle_clear_def decision_of_def)
next
  case (ClearCallback action)
  then show ?thesis
    using assms by (simp add: history_def handle_clear_callback_def decision_of_def)
qed

lemma drop_to_20_twice:
  "drop (length (drop (length xs - 20) xs @ ys) - 20) (drop (length xs - 20) xs @ ys) =
   drop (length (xs @ ys) - 20) (xs @ ys)"
  by (cases "length xs \<le> 20") (auto simp: add.commute)

lemma handle_all_history:
  "length (history ud) \<le> 20 \<Longrightarrow>
   history (handle_all ud evs) =
   drop (length (history ud @ decisions ud evs) - 20) (history ud @ decisions ud evs)"
proof (induction evs arbitrary: ud)
  case Nil
  then show ?case by (simp add: handle_all_def)
next
  case (Cons ev evs)
  let ?h = "history ud @ decision_of ud ev"
  have step: "history (handle ud ev) = drop (length ?h - 20) ?h"
    using Cons.prems by (rule handle_history_short)
  then have short: "length (history (handle ud ev)) \<le> 20"
    by simp
  have "history (handle_all ud (ev # evs)) = history (handle_all (handle ud ev) evs)"
    by (simp add: handle_all_def)
  also have "\<dots> = drop (length (history (handle ud ev) @ decisions (handle ud ev) evs) - 20)
                     (history (handle ud ev) @ decisions (handle ud ev) evs)"
    using short by (rule Cons.IH)
  also have "\<dots> = drop (length (?h @ decisions (handle ud ev) evs) - 20)
                     (?h @ decisions (handle ud ev) evs)"
    unfolding step by (rule drop_to_20_twice)
  finally show ?case by simp
qed

text \<open>
  Claim C9. Whatever reaches the handlers for a user, from the first contact on, the
  approval history is the list of the decisions taken, oldest first, cut to its last
  20: it never holds more than 20 entries, and once 25 decisions are taken it holds
  exactly 20 and ends with the most recent one.
\<close>

theorem history_is_last_20_decisions:
  "(let ds = decisions empty_user_data evs;
        h = history (handle_all empty_user_data evs)
    in h = drop (length ds - 20) ds
       \<and> length h \<le> 20
       \<and> (length ds = 25 \<longrightarrow> length h = 20 \<and> last h = last ds))"
proof -
  have "history (handle_all empty_user_data evs) =
        drop (length (decisions empty_user_data evs) - 20) (decisions empty_user_data evs)"
    using handle_all_history [of empty_user_data evs]
    by (simp add: history_def empty_user_data_def)
  then show ?thesis
    by (auto simp: Let_def last_drop)
qed

lemma rounds_1_to_25:
  "[1..<26] =
   [1, 2, 3, 4, 5, 6, 7, 8, 9, 10, 11, 12, 13, 14, 15, 16, 17, 18, 19, 20, 21, 22, 23, 24, 25 :: nat]"
  by (simp add: upt_rec)

lemmas run_rounds =
  approval_round_def handle_all_def handle_text_def get_or_create_session_id_def
  increment_turn_count_def initialize_user_data_def update_with_schema_def Let_def split_def
  empty_user_data_def answering_run_def ClaudeResponse_def decision_of_def
  handle_action_callback_def approve_def append_history_def dirty_repo_def commit_message_def
  CHANGE_STATE_PENDING_def CHANGE_STATE_APPROVED_def str_int_def build_prompt_def history_def

theorem history_is_last_20_decisions_witness:
  "length (decisions empty_user_data (concat (map approval_round [1..<26]))) = 25
   \<and> length (history (handle_all empty_user_data (concat (map approval_round [1..<26])))) = 20
   \<and> last (history (handle_all empty_user_data (concat (map approval_round [1..<26])))) =
       \<lparr>change_id = ''change_12345_25'', he_state = ''approved'', he_timestamp = ''25'',
        he_prompt = ''add tests''\<rparr>"
proof -
  have n: "length (decisions empty_user_data (concat (map approval_round [1..<26]))) = 25"
    unfolding rounds_1_to_25 by (simp add: run_rounds)
  have l: "last (decisions empty_user_data (concat (map approval_round [1..<26]))) =
       \<lparr>change_id = ''change_12345_25'', he_state = ''approved'', he_timestamp = ''25'',
        he_prompt = ''add tests''\<rparr>"
    unfolding rounds_1_to_25 by (simp add: run_rounds digit_char_def)
  show ?thesis
    using history_is_last_20_decisions [of "concat (map approval_round [1..<26])"] n l
    by (simp add: Let_def)
qed

subsection \<open>Resolving a turn\<close>

lemmas turn_defs =
  get_or_create_session_id_def increment_turn_count_def initialize_user_data_def
  update_with_schema_def

text \<open>The claim as it stands fails: a run that exits with code 0 after its
  \<^verbatim>\<open>system/init\<close> event, with no text and no tool call, is not a success, and its
  session identifier is stored all the same.\<close>

theorem failed_run_session_id_is_stored:
  "init_only_run ''hi'' JNull =
     Inr (\<lparr>success = False, output_text = [], error = None, session_id = JStr ''s-1'',
           cost_usd = JFloat 0 0, input_tokens = JInt 0, output_tokens = JInt 0,
           duration_ms = JInt 0, model = JStr ''m-1'', tools_used = [],
           raw_events = [init_event ''s-1'' ''m-1'']\<rparr>, [])
   \<and> fst (handle_text True 12345 ''hi'' ''t1'' ''t2'' ''t3'' 1700000000 init_only_run
            empty_user_data) = ExecutionFailed None
   \<and> claude_session_id (snd (handle_text True 12345 ''hi'' ''t1'' ''t2'' ''t3'' 1700000000
            init_only_run empty_user_data)) = Some (JStr ''s-1'')"
  by (simp add: init_only_run_def sample_stream_defs handle_text_def turn_defs
      empty_user_data_def Let_def split_def build_prompt_def)

lemma handle_counted_with_key: "counted_with_key ud \<Longrightarrow> counted_with_key (handle ud ev)"
proof (cases ev)
  case (TextMessage authorized user_id body now1 now2 now3 ts run)
  assume "counted_with_key ud"
  with TextMessage show ?thesis
    by (auto simp: counted_with_key_def handle_text_def turn_defs Let_def split_def
        split: sum.splits)
next
  case (ActionCallback git now1 now2 action)
  assume "counted_with_key ud"
  with ActionCallback show ?thesis
    by (auto simp: counted_with_key_def handle_action_callback_def approve_def reject_def
        append_history_def Let_def split_def split: option.splits)
next
  case (ClearCommand authorized)
  assume "counted_with_key ud"
  with ClearCommand show ?thesis
    by (auto simp: counted_with_key_def handle_clear_def)
next
  case (ClearCallback action)
  assume "counted_with_key ud"
  with ClearCallback show ?thesis
    by (auto simp: counted_with_key_def handle_clear_callback_def)
qed

lemma reachable_counted_with_key: "counted_with_key (handle_all empty_user_data evs)"
proof -
  have "counted_with_key ud \<Longrightarrow> counted_with_key (foldl handle ud evs)" for ud
    by (induction evs arbitrary: ud) (simp_all add: handle_counted_with_key)
  then show ?thesis
    by (simp add: handle_all_def counted_with_key_def empty_user_data_def)
qed

text \<open>
  Claim C6, amended. \<^verbatim>\<open>get_or_create_session_id\<close> returns the stored identifier,
  \<^verbatim>\<open>None\<close> when there is none, and invents nothing; \<^verbatim>\<open>increment_turn_count\<close> adds
  exactly one to the turn count (read as 0 when absent) and keeps the identifier, on
  all data in which a turn count other than 0 is stored only beside a session identifier
  key, as the handlers leave them; \<^verbatim>\<open>handle_text\<close> stores the session identifier of the
  executor's result whenever that identifier is non-empty, whether the run succeeded or
  not, and otherwise keeps the stored one (also when the run raises).
\<close>

theorem turn_resolution:
  "fst (get_or_create_session_id now ud) =
     (case claude_session_id ud of None \<Rightarrow> JNull | Some v \<Rightarrow> v)
   \<and> claude_session_id (snd (get_or_create_session_id now ud)) =
       Some (fst (get_or_create_session_id now ud))
   \<and> (counted_with_key ud \<longrightarrow>
        fst (increment_turn_count now ud) =
          (case turn_count ud of None \<Rightarrow> 0 | Some c \<Rightarrow> c) + 1
        \<and> turn_count (snd (increment_turn_count now ud)) =
          Some ((case turn_count ud of None \<Rightarrow> 0 | Some c \<Rightarrow> c) + 1)
        \<and> claude_session_id (snd (increment_turn_count now ud)) =
          Some (case claude_session_id ud of None \<Rightarrow> JNull | Some v \<Rightarrow> v))
   \<and> (case outcome of
        Inr (r, sent) \<Rightarrow>
          claude_session_id
            (snd (handle_text True user_id body now1 now2 now3 ts (\<lambda>p sid. outcome) ud)) =
          Some (if truthy (session_id r) then session_id r
                else (case claude_session_id ud of None \<Rightarrow> JNull | Some v \<Rightarrow> v))
      | Inl e \<Rightarrow>
          claude_session_id
            (snd (handle_text True user_id body now1 now2 now3 ts (\<lambda>p sid. outcome) ud)) =
          Some (case claude_session_id ud of None \<Rightarrow> JNull | Some v \<Rightarrow> v))"
proof -
  have a: "fst (get_or_create_session_id now ud) =
      (case claude_session_id ud of None \<Rightarrow> JNull | Some v \<Rightarrow> v)"
    by (simp add: turn_defs Let_def split: option.splits)
  have b: "claude_session_id (snd (get_or_create_session_id now ud)) =
      Some (fst (get_or_create_session_id now ud))"
    by (simp add: turn_defs Let_def split: option.splits)
  have c: "counted_with_key ud \<longrightarrow>
        fst (increment_turn_count now ud) =
          (case turn_count ud of None \<Rightarrow> 0 | Some c \<Rightarrow> c) + 1
        \<and> turn_count (snd (increment_turn_count now ud)) =
          Some ((case turn_count ud of None \<Rightarrow> 0 | Some c \<Rightarrow> c) + 1)
        \<and> claude_session_id (snd (increment_turn_count now ud)) =
          Some (case claude_session_id ud of None \<Rightarrow> JNull | Some v \<Rightarrow> v)"
    by (auto simp: counted_with_key_def turn_defs Let_def split: option.splits)
  have d: "(case outcome of
        Inr (r, sent) \<Rightarrow>
          claude_session_id
            (snd (handle_text True user_id body now1 now2 now3 ts (\<lambda>p sid. outcome) ud)) =
          Some (if truthy (session_id r) then session_id r
                else (case claude_session_id ud of None \<Rightarrow> JNull | Some v \<Rightarrow> v))
      | Inl e \<Rightarrow>
          claude_session_id
            (snd (handle_text True user_id body now1 now2 now3 ts (\<lambda>p sid. outcome) ud)) =
          Some (case claude_session_id ud of None \<Rightarrow> JNull | Some v \<Rightarrow> v))"
    by (cases outcome)
      (auto simp: handle_text_def turn_defs Let_def split_def split: option.splits)
  show ?thesis
    using a b c d by simp
qed

theorem turn_resolution_witness:
  "counted_with_key linked_user_data
   \<and> fst (get_or_create_session_id ''t1'' linked_user_data) = JStr ''0b9f''
   \<and> fst (increment_turn_count ''t1'' linked_user_data) = 8
   \<and> turn_count (snd (increment_turn_count ''t1'' linked_user_data)) = Some 8
   \<and> claude_session_id (snd (increment_turn_count ''t1'' linked_user_data)) =
       Some (JStr ''0b9f'')"
  using turn_resolution [where now = "''t1''" and ud = linked_user_data]
  by (simp add: linked_user_data_def counted_with_key_def)

subsection \<open>The answer to a successful run\<close>

text \<open>A successful run whose result carries a cost that the format code does not fit (a
  \<^verbatim>\<open>total_cost_usd\<close> of \<^verbatim>\<open>null\<close>, say) is answered with the execution error; the pending
  change is stored all the same.\<close>

lemma cost_not_formatted:
  assumes "success r" and "cost_format_error (cost_usd r) = Some e"
  shows "fst (handle_text True user_id body now1 now2 now3 ts (\<lambda>p sid. Inr (r, sent)) ud) =
           ExecutionErrorReply e"
    and "pending_change
           (snd (handle_text True user_id body now1 now2 now3 ts (\<lambda>p sid. Inr (r, sent)) ud)) \<noteq>
         None"
  using assms by (simp_all add: handle_text_def Let_def split_def)

lemma cost_formatted:
  assumes "success r" and "cost_format_error (cost_usd r) = None"
  shows "fst (handle_text True user_id body now1 now2 now3 ts (\<lambda>p sid. Inr (r, sent)) ud) =
           Answered r"
  using assms by (simp add: handle_text_def Let_def split_def)

section \<open>Properties of the splitter\<close>

lemma finditer_from_replicate:
  assumes "p \<noteq> []" "hd p \<noteq> c"
  shows "finditer_from p i 0 (replicate n c @ s) = finditer_from p (i + n) 0 s"
proof (induction n arbitrary: i)
  case 0
  then show ?case by simp
next
  case (Suc n)
  from assms have "\<not> starts_with p (c # replicate n c @ s)"
    by (cases p) (auto simp: starts_with_def)
  with Suc [of "i + 1"] show ?case by simp
qed

lemma code_blocks_from_replicate:
  assumes "c \<noteq> CHR 0x60"
  shows "code_blocks_from i 0 None (replicate n c @ s) = code_blocks_from (i + n) 0 None s"
proof (induction n arbitrary: i)
  case 0
  then show ?case by simp
next
  case (Suc n)
  from assms have "\<not> starts_with FENCE (c # replicate n c @ s)"
    by (auto simp: starts_with_def FENCE_def)
  with Suc [of "i + 1"] show ?case by simp
qed

lemma strip_replicate:
  assumes "\<not> is_space c" "0 < n" "s \<noteq> []" "\<not> is_space (last s)"
  shows "strip (replicate n c @ s) = replicate n c @ s"
proof -
  from assms(2) obtain m where n: "n = Suc m" by (cases n) auto
  have front: "dropWhile is_space (replicate n c @ s) = replicate n c @ s"
    using assms(1) n by simp
  from assms(3) obtain t x where s: "s = t @ [x]" by (cases s rule: rev_cases) auto
  with assms(4) have "\<not> is_space x" by simp
  then have "dropWhile is_space (rev (replicate n c @ s)) = rev (replicate n c @ s)"
    using s by simp
  with front show ?thesis by (simp add: strip_def)
qed

lemma split_point_in_block:
  "find_split_point (n + 10) (letters_then_block n) = n + 9"
  by (simp add: find_split_point_def code_blocks_def finditer_def Let_def letters_then_block_def
      code_blocks_from_replicate finditer_from_replicate FENCE_def starts_with_def)

lemma block_found: "code_blocks (letters_then_block n) = [(n, n + 13)]"
  by (simp add: code_blocks_def letters_then_block_def code_blocks_from_replicate FENCE_def
      starts_with_def)

lemma block_is_split:
  assumes "0 < n"
  shows "format_response (n + 10) (letters_then_block n) False header =
     Some [FormattedMessage (replicate n CHR ''a'' @ ''```x x x'' @ CONTINUED_AFTER),
           FormattedMessage (CONTINUED_BEFORE @ ''x```'')]"
proof -
  have whole: "strip (letters_then_block n) = letters_then_block n"
    unfolding letters_then_block_def using assms
    by (intro strip_replicate) (simp_all add: is_space_def)
  have chunk: "strip (take (n + 9) (letters_then_block n)) = replicate n CHR ''a'' @ ''```x x x''"
    using assms by (simp add: letters_then_block_def strip_def is_space_def)
  have rest: "strip (drop (n + 9) (letters_then_block n)) = ''x```''"
    by (simp add: letters_then_block_def strip_def is_space_def)
  have loop: "split_loop (n + 10) [] (letters_then_block n) =
      Some ([FormattedMessage (replicate n CHR ''a'' @ ''```x x x'' @ CONTINUED_AFTER)], ''x```'')"
    apply (subst split_loop.simps)
    apply (simp add: split_point_in_block chunk rest Let_def)
    apply (simp add: letters_then_block_def)
    apply (subst split_loop.simps)
    apply simp
    done
  show ?thesis
    using whole loop by (simp add: format_response_def split_message_def letters_then_block_def)
qed

lemma open_fence_in_both_units:
  "fence_count (replicate n CHR ''a'' @ ''```x x x'' @ CONTINUED_AFTER) = 1
   \<and> fence_count (CONTINUED_BEFORE @ ''x```'') = 1"
  by (simp add: fence_count_def finditer_def finditer_from_replicate FENCE_def starts_with_def
      CONTINUED_AFTER_def CONTINUED_BEFORE_def)

text \<open>
  Claim C7. The text holds a single fenced block of 13 characters, its fences
  included, behind 3890 letters, and the limit is 3900. The block ends 3 characters past
  the limit, so \<^verbatim>\<open>_find_split_point\<close> does not take its end as the split point and falls
  back to the last blank before the limit, which lies inside the block: each of the two
  units holds one fence marker, an odd number, and the block is in neither unit whole.
  The claim does not hold for the code.
\<close>

theorem fenced_block_is_split_at_default_limit:
  "length ''```x x x x```'' < MAX_SAFE_LENGTH
   \<and> code_blocks (letters_then_block 3890) = [(3890, 3903)]
   \<and> format_response MAX_SAFE_LENGTH (letters_then_block 3890) False [] =
       Some [FormattedMessage (replicate 3890 CHR ''a'' @ ''```x x x'' @ CONTINUED_AFTER),
             FormattedMessage (CONTINUED_BEFORE @ ''x```'')]
   \<and> fence_count (replicate 3890 CHR ''a'' @ ''```x x x'' @ CONTINUED_AFTER) = 1
   \<and> fence_count (CONTINUED_BEFORE @ ''x```'') = 1"
  using block_is_split [of 3890 "[]"] block_found [of 3890] open_fence_in_both_units [of 3890]
  by (simp add: MAX_SAFE_LENGTH_def)

end
